theory Spec2Isabelle
  imports Complex_Main "HOL-Library.Word"
begin

section \<open>Audio transcription: chunking, retry, reconciliation, orchestration\<close>

text \<open>
  A shallow embedding of the chunking service (\<^verbatim>\<open>AudioChunkingService.js\<close>), of the
  transcription service (\<^verbatim>\<open>GroqTranscriptionService.js\<close>) and of the retry helper of
  the API route (\<^verbatim>\<open>fetchWithRetry\<close>).

  Number model. A JavaScript number is modelled by the real number it denotes; integers
  that the code only counts with (indices, lengths, byte sizes) are \<open>nat\<close> or \<open>int\<close>.
  \<open>NaN\<close>, the infinities, the rounding of double arithmetic and the exponent notation of
  \<^verbatim>\<open>Number.prototype.toString\<close> for integers of 22 digits and more are outside the
  model. All sums, products and comparisons of integers below \<open>2^53\<close> are exact in
  doubles, so on integer-valued inputs the model and the program agree. The one \<open>NaN\<close>
  that the program makes of numbers of the model, the sample that the chunk copy reads at
  an index that is not an integer, is the sample \<open>None\<close> of the chunk buffer.

  Effects. Network calls, timers and progress callbacks are recorded in an event trace that
  every effectful function returns next to its result; the environment (what a call to
  \<^verbatim>\<open>fetch\<close> answers, what the metadata probe and the decoder deliver) is an explicit
  argument.
\<close>

subsection \<open>Numbers and strings of the host language\<close>

definition digit_char :: "nat \<Rightarrow> char" where
  "digit_char d = ''0123456789'' ! d"

text \<open>\<^verbatim>\<open>n.toString()\<close> for a non-negative integer: its decimal digits.\<close>

fun show_nat :: "nat \<Rightarrow> string" where
  "show_nat n =
     (if n < 10 then [digit_char n] else show_nat (n div 10) @ [digit_char (n mod 10)])"

declare show_nat.simps [simp del]

definition show_int :: "int \<Rightarrow> string" where
  "show_int i = (if i < 0 then CHR ''-'' # show_nat (nat (- i)) else show_nat (nat i))"

text \<open>\<^verbatim>\<open>s.padStart(targetLength, c)\<close> with a one-character pad string.\<close>

definition padStart :: "string \<Rightarrow> nat \<Rightarrow> char \<Rightarrow> string" where
  "padStart s targetLength c = replicate (targetLength - length s) c @ s"

text \<open>Truncation toward zero, as in the integer conversions of ECMAScript.\<close>

definition js_trunc :: "real \<Rightarrow> int" where
  "js_trunc x = (if 0 \<le> x then \<lfloor>x\<rfloor> else \<lceil>x\<rceil>)"

text \<open>The remainder operator \<^verbatim>\<open>a % b\<close>: the result has the sign of the dividend.\<close>

definition js_rem :: "real \<Rightarrow> real \<Rightarrow> real" where
  "js_rem a b = a - b * of_int (js_trunc (a / b))"

text \<open>\<^verbatim>\<open>haystack.includes(needle)\<close>.\<close>

fun starts_with :: "string \<Rightarrow> string \<Rightarrow> bool" where
  "starts_with s [] = True"
| "starts_with [] (p # ps) = False"
| "starts_with (c # cs) (p # ps) = (c = p \<and> starts_with cs ps)"

fun str_includes :: "string \<Rightarrow> string \<Rightarrow> bool" where
  "str_includes [] needle = (needle = [])"
| "str_includes (c # cs) needle = (starts_with (c # cs) needle \<or> str_includes cs needle)"

subsection \<open>Timestamp formatter (\<^verbatim>\<open>formatTimestamp\<close>)\<close>

definition formatTimestamp :: "real \<Rightarrow> string" where
  "formatTimestamp seconds =
     (let hrs = \<lfloor>seconds / 3600\<rfloor>;
          mins = \<lfloor>js_rem seconds 3600 / 60\<rfloor>;
          secs = \<lfloor>js_rem seconds 60\<rfloor>
      in if hrs > 0
         then padStart (show_int hrs) 2 CHR ''0'' @ '':'' @ padStart (show_int mins) 2 CHR ''0''
              @ '':'' @ padStart (show_int secs) 2 CHR ''0''
         else padStart (show_int mins) 2 CHR ''0'' @ '':'' @ padStart (show_int secs) 2 CHR ''0'')"

subsection \<open>Segments and their reconciliation\<close>

text \<open>
  A segment as the proxy route returns it: exactly the fields \<^verbatim>\<open>id\<close>, \<^verbatim>\<open>start\<close>,
  \<^verbatim>\<open>end\<close> and \<^verbatim>\<open>text\<close>.
\<close>

record segment =
  seg_id :: int
  seg_start :: real
  seg_end :: real
  seg_text :: string

text \<open>
  The timestamp adjustment written inline in \<^verbatim>\<open>transcribeSingleAudio\<close>:
  \<^verbatim>\<open>if (timeOffset > 0 && segments.length > 0) segments = segments.map(seg =>
  ({...seg, start: seg.start + timeOffset, end: seg.end + timeOffset}))\<close>.
  The spread copies every field; the record update leaves the others as they are.
\<close>

definition reconcile :: "segment list \<Rightarrow> real \<Rightarrow> segment list" where
  "reconcile segments timeOffset =
     (if timeOffset > 0 \<and> length segments > 0
      then map (\<lambda>seg. seg\<lparr>seg_start := seg_start seg + timeOffset,
                           seg_end := seg_end seg + timeOffset\<rparr>) segments
      else segments)"

subsection \<open>Chunk-need classifier (\<^verbatim>\<open>checkIfNeedsChunking\<close>)\<close>

definition CHUNK_DURATION_SECONDS :: real where
  "CHUNK_DURATION_SECONDS = 300"

text \<open>
  The three reason strings are template literals with numbers rendered into them; the
  model keeps the template and its arguments:
  \<^item> \<open>FileSizeExceeds (Some mb) limit\<close> is
    \<^verbatim>\<open>`File size (${fileSizeMB.toFixed(1)}MB) exceeds ${maxSizeMB}MB limit`\<close>;
  \<^item> \<open>FileSizeExceeds None limit\<close> is \<^verbatim>\<open>`File size exceeds ${maxSizeMB}MB limit`\<close>;
  \<^item> \<open>DurationExceeds d limit\<close> is
    \<^verbatim>\<open>`Duration (${Math.round(duration)}s) exceeds ${maxDurationSeconds}s limit`\<close>.
\<close>

datatype reason = FileSizeExceeds "real option" real | DurationExceeds real real

record chunk_check =
  needsChunking :: bool
  reason :: "reason option"
  cc_duration :: "real option"
  estimatedChunks :: int

text \<open>
  A file as the services see it: its size in bytes, what the metadata probe
  \<^verbatim>\<open>getAudioDuration\<close> resolves to (\<open>None\<close> when the promise is rejected), and what
  \<^verbatim>\<open>decodeAudioData\<close> delivers (the message of the exception, or the decoded buffer:
  sample rate, number of sample frames, one list of samples per channel).
\<close>

record audio_buffer =
  sampleRate :: real
  buf_length :: nat
  channelData :: "real list list"

record audio_file =
  file_size :: nat
  probed_duration :: "real option"
  decoded :: "string + audio_buffer"

definition checkIfNeedsChunking :: "audio_file \<Rightarrow> real \<Rightarrow> real \<Rightarrow> chunk_check" where
  "checkIfNeedsChunking file maxSizeMB maxDurationSeconds =
     (let fileSizeMB = real (file_size file) / (1024 * 1024) in
      case probed_duration file of
        Some duration \<Rightarrow>
          if fileSizeMB > maxSizeMB then
            \<lparr>needsChunking = True,
             reason = Some (FileSizeExceeds (Some fileSizeMB) maxSizeMB),
             cc_duration = Some duration,
             estimatedChunks = \<lceil>duration / CHUNK_DURATION_SECONDS\<rceil>\<rparr>
          else if duration > maxDurationSeconds then
            \<lparr>needsChunking = True,
             reason = Some (DurationExceeds duration maxDurationSeconds),
             cc_duration = Some duration,
             estimatedChunks = \<lceil>duration / CHUNK_DURATION_SECONDS\<rceil>\<rparr>
          else
            \<lparr>needsChunking = False, reason = None, cc_duration = Some duration,
             estimatedChunks = 1\<rparr>
      | None \<Rightarrow>
          \<lparr>needsChunking = (fileSizeMB > maxSizeMB),
           reason = (if fileSizeMB > maxSizeMB then Some (FileSizeExceeds None maxSizeMB) else None),
           cc_duration = None,
           estimatedChunks = (if fileSizeMB > maxSizeMB then \<lceil>fileSizeMB / 10\<rceil> else 1)\<rparr>)"

subsection \<open>Retry helper of the API route (\<^verbatim>\<open>fetchWithRetry\<close>)\<close>

definition MAX_RETRIES :: nat where
  "MAX_RETRIES = 3"

definition RETRY_DELAY_MS :: nat where
  "RETRY_DELAY_MS = 1000"

text \<open>
  An exception of \<^verbatim>\<open>fetch\<close>: \<^verbatim>\<open>error.cause?.code\<close> and \<^verbatim>\<open>error.message\<close>, each
  possibly absent. A response of the provider, whatever its status, is a value.
\<close>

record js_error =
  cause_code :: "string option"
  message :: "string option"

record http_response =
  ok :: bool
  status :: nat

datatype fetch_result = Resolves http_response | Rejects js_error

text \<open>
  What a run does, in the order in which it does it: the \<open>n\<close>-th call of \<^verbatim>\<open>fetch\<close>, a
  line on the console, and a timer of so many milliseconds that the loop awaits before
  it goes on.
\<close>

datatype retry_event = FetchAttempt nat | ConsoleLog string | SetTimeout nat

datatype retry_outcome = Returned http_response | Thrown js_error | ReturnedUndefined

definition isRetryable :: "js_error \<Rightarrow> bool" where
  "isRetryable error =
     (cause_code error = Some ''ETIMEDOUT'' \<or>
      cause_code error = Some ''ECONNRESET'' \<or>
      (case message error of None \<Rightarrow> False | Some m \<Rightarrow> str_includes m ''fetch failed''))"

text \<open>
  The loop \<^verbatim>\<open>for (let attempt = 1; attempt <= retries; attempt++)\<close>; \<open>net n\<close> is what
  the \<open>n\<close>-th call of \<^verbatim>\<open>fetch\<close> does. When the loop ends without a return (only when
  \<open>retries < 1\<close>), the function returns \<^verbatim>\<open>undefined\<close>.
\<close>

function fetchLoop :: "(nat \<Rightarrow> fetch_result) \<Rightarrow> nat \<Rightarrow> nat \<Rightarrow> retry_outcome \<times> retry_event list" where
  "fetchLoop net retries attempt =
     (if attempt \<le> retries then
        (case net attempt of
           Resolves response \<Rightarrow> (Returned response, [FetchAttempt attempt])
         | Rejects error \<Rightarrow>
             (let isLastAttempt = (attempt = retries) in
              if isLastAttempt \<or> \<not> isRetryable error then (Thrown error, [FetchAttempt attempt])
              else
                (let (outcome, trace) = fetchLoop net retries (attempt + 1) in
                 (outcome,
                  [FetchAttempt attempt,
                   ConsoleLog (''Attempt '' @ show_nat attempt @ '' failed, retrying in ''
                               @ show_nat RETRY_DELAY_MS @ ''ms...''),
                   SetTimeout (RETRY_DELAY_MS * attempt)] @ trace))))
      else (ReturnedUndefined, []))"
  by pat_completeness auto

termination
  by (relation "measure (\<lambda>(net, retries, attempt). Suc retries - attempt)") auto

declare fetchLoop.simps [simp del]

text \<open>The line that \<^verbatim>\<open>console.log\<close> prints before the delay that follows an attempt.\<close>

definition retryLog :: "nat \<Rightarrow> retry_event" where
  "retryLog attempt =
     ConsoleLog (''Attempt '' @ show_nat attempt @ '' failed, retrying in ''
                 @ show_nat RETRY_DELAY_MS @ ''ms...'')"

text \<open>What an observer of the network and of the timers sees of a run.\<close>

fun fetchAttempts :: "retry_event list \<Rightarrow> nat list" where
  "fetchAttempts [] = []"
| "fetchAttempts (FetchAttempt n # es) = n # fetchAttempts es"
| "fetchAttempts (e # es) = fetchAttempts es"

fun delays :: "retry_event list \<Rightarrow> nat list" where
  "delays [] = []"
| "delays (SetTimeout ms # es) = ms # delays es"
| "delays (e # es) = delays es"

definition fetchWithRetry :: "(nat \<Rightarrow> fetch_result) \<Rightarrow> retry_outcome \<times> retry_event list" where
  "fetchWithRetry net = fetchLoop net MAX_RETRIES 1"

subsection \<open>Chunk extraction (\<^verbatim>\<open>splitAudioIntoChunks\<close>)\<close>

text \<open>
  The payload of a chunk: the file object itself, or the blob that \<^verbatim>\<open>audioBufferToWav\<close>
  makes of the copy of the window of the decoded buffer that starts at \<open>currentSample\<close>
  and has \<open>chunkSamples\<close> frames. The window, not the bytes, is kept: it determines them.
\<close>

datatype payload = OriginalFile | WavChunk real real

record chunk =
  blob :: payload
  startTime :: real
  endTime :: real
  index :: nat
  chunk_duration :: "real option"

text \<open>\<^verbatim>\<open>audioBuffer.duration\<close>: the number of frames over the sample rate.\<close>

definition buf_duration :: "audio_buffer \<Rightarrow> real" where
  "buf_duration b = real (buf_length b) / sampleRate b"

text \<open>
  The loop \<^verbatim>\<open>while (currentSample < totalSamples)\<close>. Nothing in it bounds the number
  of iterations when \<open>samplesPerChunk\<close> is not positive, so it is a partial function:
  \<open>None\<close> is the loop that does not end. The blob of a chunk is determined by its
  window; \<open>chunkBufferData\<close> below is the copy that the loop body makes of it. A window
  of less than one frame, for which \<^verbatim>\<open>createBuffer\<close> throws, is outside the model.
\<close>

partial_function (option) splitLoop ::
  "real \<Rightarrow> real \<Rightarrow> nat \<Rightarrow> real \<Rightarrow> nat \<Rightarrow> chunk list \<Rightarrow> chunk list option" where
  "splitLoop samplesPerChunk rate totalSamples currentSample chunkIndex chunks =
     (if currentSample < real totalSamples then
        (let chunkSamples = min samplesPerChunk (real totalSamples - currentSample);
             st = currentSample / rate;
             et = (currentSample + chunkSamples) / rate
         in splitLoop samplesPerChunk rate totalSamples (currentSample + chunkSamples)
              (chunkIndex + 1)
              (chunks @ [\<lparr>blob = WavChunk currentSample chunkSamples, startTime = st,
                           endTime = et, index = chunkIndex,
                           chunk_duration = Some (et - st)\<rparr>]))
      else Some chunks)"

text \<open>
  The result is \<open>Inl message\<close> when \<^verbatim>\<open>decodeAudioData\<close> throws. The chunk of the short
  file has no \<^verbatim>\<open>duration\<close> field.
\<close>

definition splitAudioIntoChunks :: "audio_file \<Rightarrow> real \<Rightarrow> (string + chunk list) option" where
  "splitAudioIntoChunks file chunkDurationSeconds =
     (case decoded file of
        Inl msg \<Rightarrow> Some (Inl msg)
      | Inr audioBuffer \<Rightarrow>
          (let duration = buf_duration audioBuffer;
               rate = sampleRate audioBuffer
           in if duration \<le> chunkDurationSeconds then
                Some (Inr [\<lparr>blob = OriginalFile, startTime = 0, endTime = duration, index = 0,
                            chunk_duration = None\<rparr>])
              else
                (let samplesPerChunk = chunkDurationSeconds * rate;
                     totalSamples = buf_length audioBuffer
                 in map_option Inr (splitLoop samplesPerChunk rate totalSamples 0 0 []))))"

text \<open>
  The window of the decoded buffer that a chunk was cut from: start and end sample. The
  file itself is not cut from the buffer; it gets the empty window.
\<close>

definition window :: "chunk \<Rightarrow> real \<times> real" where
  "window c = (case blob c of
                 WavChunk currentSample chunkSamples \<Rightarrow> (currentSample, currentSample + chunkSamples)
               | OriginalFile \<Rightarrow> (0, 0))"

text \<open>
  The copy into the chunk buffer,
  \<^verbatim>\<open>for (let i = 0; i < chunkSamples; i++) chunkData[i] = sourceData[currentSample + i]\<close>,
  after \<^verbatim>\<open>createBuffer(numberOfChannels, chunkSamples, sampleRate)\<close>. The frame count of
  the new buffer is \<open>chunkSamples\<close> truncated to an integer; a write past its end is
  ignored. A read of the source at an index that is not an integer within the array is
  \<^verbatim>\<open>undefined\<close>, which the chunk buffer stores as \<open>NaN\<close>: the sample \<open>None\<close>.
\<close>

definition readSample :: "real list \<Rightarrow> real \<Rightarrow> real option" where
  "readSample sourceData x =
     (if 0 \<le> x \<and> x = real_of_int \<lfloor>x\<rfloor> \<and> nat \<lfloor>x\<rfloor> < length sourceData
      then Some (sourceData ! nat \<lfloor>x\<rfloor>) else None)"

definition copyChannel :: "real list \<Rightarrow> real \<Rightarrow> real \<Rightarrow> real option list" where
  "copyChannel sourceData currentSample chunkSamples =
     map (\<lambda>i. readSample sourceData (currentSample + real i)) [0 ..< nat (js_trunc chunkSamples)]"

definition chunkBufferData :: "audio_buffer \<Rightarrow> payload \<Rightarrow> real option list list" where
  "chunkBufferData audioBuffer p =
     (case p of
        WavChunk currentSample chunkSamples \<Rightarrow>
          map (\<lambda>sourceData. copyChannel sourceData currentSample chunkSamples)
              (channelData audioBuffer)
      | OriginalFile \<Rightarrow> [])"

subsection \<open>WAV encoder (\<^verbatim>\<open>audioBufferToWav\<close>)\<close>

text \<open>
  \<^verbatim>\<open>DataView.setInt16\<close>, \<^verbatim>\<open>setUint16\<close> and \<^verbatim>\<open>setUint32\<close> convert their argument
  by truncation and reduction modulo the width, which is what \<open>word_of_int\<close> does, and
  with \<^verbatim>\<open>littleEndian = true\<close> write the low byte first.
\<close>

definition ToInt16 :: "real \<Rightarrow> 16 word" where
  "ToInt16 x = word_of_int (js_trunc x)"

definition setInt16 :: "real \<Rightarrow> 8 word list" where
  "setInt16 v = (let w = ToInt16 v in [ucast w, ucast (drop_bit 8 w)])"

definition setUint16 :: "real \<Rightarrow> 8 word list" where
  "setUint16 v = (let w = (word_of_int (js_trunc v) :: 16 word) in [ucast w, ucast (drop_bit 8 w)])"

definition setUint32 :: "real \<Rightarrow> 8 word list" where
  "setUint32 v = (let w = (word_of_int (js_trunc v) :: 32 word)
                  in [ucast w, ucast (drop_bit 8 w), ucast (drop_bit 16 w), ucast (drop_bit 24 w)])"

definition writeString :: "string \<Rightarrow> 8 word list" where
  "writeString s = map (\<lambda>c. of_nat (of_char c)) s"

text \<open>
  \<^verbatim>\<open>Math.max(-1, Math.min(1, sample)) * 0x7FFF\<close>; \<open>0x7FFF\<close> is \<open>32767\<close>.
\<close>

definition intSample :: "real \<Rightarrow> real" where
  "intSample sample = max (- 1) (min 1 sample) * 32767"

definition encodeSample :: "real \<Rightarrow> 8 word list" where
  "encodeSample sample = setInt16 (intSample sample)"

text \<open>
  One sample of the data section. A read past the end of a channel is \<^verbatim>\<open>undefined\<close>;
  the arithmetic turns it into \<open>NaN\<close>, which \<^verbatim>\<open>setInt16\<close> writes as \<open>0\<close>.
\<close>

definition sampleBytes :: "real list \<Rightarrow> nat \<Rightarrow> 8 word list" where
  "sampleBytes channel i = (if i < length channel then encodeSample (channel ! i) else [0, 0])"

definition audioBufferToWav :: "audio_buffer \<Rightarrow> 8 word list" where
  "audioBufferToWav buffer =
     (let numberOfChannels = length (channelData buffer);
          format = 1;
          bitDepth = 16;
          bytesPerSample = bitDepth / 8;
          blockAlign = real numberOfChannels * bytesPerSample;
          dataLength = real (buf_length buffer) * blockAlign
      in writeString ''RIFF'' @ setUint32 (36 + dataLength) @ writeString ''WAVE'' @
         writeString ''fmt '' @ setUint32 16 @ setUint16 format @
         setUint16 (real numberOfChannels) @ setUint32 (sampleRate buffer) @
         setUint32 (sampleRate buffer * blockAlign) @ setUint16 blockAlign @
         setUint16 bitDepth @ writeString ''data'' @ setUint32 dataLength @
         concat (map (\<lambda>i. concat (map (\<lambda>channel. sampleBytes channel i) (channelData buffer)))
                     [0 ..< buf_length buffer]))"

text \<open>
  The two bytes of a sample of the chunk buffer: \<open>NaN\<close> goes through the clamp and the
  scaling unchanged and is written by \<^verbatim>\<open>setInt16\<close> as \<open>0\<close>.
\<close>

definition copiedSampleBytes :: "real option \<Rightarrow> 8 word list" where
  "copiedSampleBytes sample = (case sample of None \<Rightarrow> [0, 0] | Some v \<Rightarrow> encodeSample v)"

text \<open>
  The signed 16-bit value that two bytes denote in little-endian two's complement: the
  PCM sample that the encoder has written. How the platform's decoder scales it back to
  a floating-point sample is not part of the repository and is not modelled.
\<close>

definition getInt16 :: "8 word list \<Rightarrow> int" where
  "getInt16 bytes = sint (word_cat (bytes ! 1) (bytes ! 0) :: 16 word)"

subsection \<open>One transcription call (\<^verbatim>\<open>transcribeSingleAudio\<close>)\<close>

text \<open>
  The JSON body of the proxy's answer, and what \<^verbatim>\<open>fetch\<close> followed by
  \<^verbatim>\<open>response.json()\<close> does: an exception with its message, or a response with its
  \<^verbatim>\<open>ok\<close> flag and parsed body.
\<close>

record proxy_body =
  pb_error :: "string option"
  pb_text :: string
  pb_language :: string
  pb_duration :: "real option"
  pb_segments :: "segment list option"

datatype fetch_outcome = Threw string | Responded bool proxy_body

record progress =
  p_status :: string
  p_message :: string
  p_progress :: "real option"
  p_currentChunk :: "nat option"
  p_totalChunks :: "nat option"

text \<open>
  What an observer sees: a progress notification, or a POST to \<^verbatim>\<open>/api/transcribe\<close>
  with the payload, the filename given to the form field (if any), the language and the
  timestamps flag.
\<close>

datatype event = Progress progress | Upload payload "string option" string bool

text \<open>
  The two object literals that \<^verbatim>\<open>transcribeSingleAudio\<close> returns:
  \<^verbatim>\<open>{success: true, text, language, duration, segments}\<close> and
  \<^verbatim>\<open>{success: false, error}\<close>.
\<close>

datatype single_result =
    SingleSuccess string string "real option" "segment list"
  | SingleFailure string

text \<open>\<^verbatim>\<open>onProgress?.(p)\<close>: a notification only when a callback was given.\<close>

definition emit :: "bool \<Rightarrow> progress \<Rightarrow> event list" where
  "emit onProgress p = (if onProgress then [Progress p] else [])"

definition notice :: "string \<Rightarrow> string \<Rightarrow> progress" where
  "notice st msg = \<lparr>p_status = st, p_message = msg, p_progress = None,
                   p_currentChunk = None, p_totalChunks = None\<rparr>"

text \<open>\<^verbatim>\<open>s || fallback\<close> on a possibly absent string: the empty string is falsy too.\<close>

definition or_else :: "string option \<Rightarrow> string \<Rightarrow> string" where
  "or_else s fallback = (case s of None \<Rightarrow> fallback | Some v \<Rightarrow> if v = [] then fallback else v)"

definition transcribeSingleAudio ::
  "fetch_outcome \<Rightarrow> payload \<Rightarrow> string \<Rightarrow> bool \<Rightarrow> string option \<Rightarrow> bool \<Rightarrow> real
     \<Rightarrow> single_result \<times> event list" where
  "transcribeSingleAudio answer file language onProgress filename includeTimestamps timeOffset =
     (let sent =
            emit onProgress (notice ''uploading'' ''Uploading audio file...'') @
            emit onProgress (notice ''transcribing'' ''Transcribing audio...'') @
            [Upload file
               (case file of
                  WavChunk currentSample chunkSamples \<Rightarrow> Some (or_else filename ''audio-chunk.wav'')
                | OriginalFile \<Rightarrow> None)
               language includeTimestamps];
          caught = (\<lambda>msg. (SingleFailure msg, sent @ emit onProgress (notice ''error'' msg)))
      in case answer of
           Threw msg \<Rightarrow> caught msg
         | Responded response_ok result \<Rightarrow>
             if \<not> response_ok then caught (or_else (pb_error result) ''Failed to transcribe audio'')
             else
               (SingleSuccess (pb_text result) (pb_language result) (pb_duration result)
                  (reconcile (case pb_segments result of None \<Rightarrow> [] | Some segs \<Rightarrow> segs) timeOffset),
                sent @ emit onProgress (notice ''completed'' ''Transcription complete!'')))"

subsection \<open>Orchestrator (\<^verbatim>\<open>transcribeAudio\<close>)\<close>

record chunk_summary =
  chunkIndex :: nat
  sum_startTime :: real
  sum_endTime :: real
  sum_duration :: "real option"
  sum_text :: string

text \<open>
  The results of \<^verbatim>\<open>transcribeAudio\<close>: what \<^verbatim>\<open>transcribeSingleAudio\<close> returned (the
  \<^verbatim>\<open>catch\<close> block builds the same \<^verbatim>\<open>{success: false, error}\<close>), the literal of a
  completed chunked run (text, segments, chunks, language, totalDuration, wasChunked),
  and the literal of an aborted one (error, partialText, segments, completedChunks,
  totalChunks).
\<close>

datatype transcription_result =
    Single single_result
  | ChunkedSuccess string "segment list" "chunk_summary list" string "real option" bool
  | PartialFailure string string "segment list" nat nat

fun success :: "transcription_result \<Rightarrow> bool" where
  "success (Single (SingleSuccess t l d s)) = True"
| "success (Single (SingleFailure e)) = False"
| "success (ChunkedSuccess t s c l d w) = True"
| "success (PartialFailure e p s c t) = False"

text \<open>The property names of each literal, in the order they are written.\<close>

fun keys :: "transcription_result \<Rightarrow> string list" where
  "keys (Single (SingleSuccess t l d s)) =
     [''success'', ''text'', ''language'', ''duration'', ''segments'']"
| "keys (Single (SingleFailure e)) = [''success'', ''error'']"
| "keys (ChunkedSuccess t s c l d w) =
     [''success'', ''text'', ''segments'', ''chunks'', ''language'', ''totalDuration'',
      ''wasChunked'']"
| "keys (PartialFailure e p s c t) =
     [''success'', ''error'', ''partialText'', ''segments'', ''completedChunks'',
      ''totalChunks'']"

datatype loop_exit =
    Aborted transcription_result
  | Completed "chunk_summary list" string "segment list"

text \<open>The progress notification at the head of the loop body, for the chunk at \<open>i\<close>.\<close>

definition chunkNote :: "nat \<Rightarrow> nat \<Rightarrow> progress" where
  "chunkNote i n =
     \<lparr>p_status = ''transcribing'',
      p_message = ''Transcribing chunk '' @ show_nat (i + 1) @ '' of '' @ show_nat n @ ''...'',
      p_progress = Some (real i / real n * 100),
      p_currentChunk = Some (i + 1),
      p_totalChunks = Some n\<rparr>"

text \<open>
  The call of \<^verbatim>\<open>transcribeSingleAudio\<close> in the loop body: no progress callback, the
  filename \<^verbatim>\<open>chunk-${i + 1}.wav\<close>, the chunk's start time as offset. \<open>net i\<close> is the
  answer to the request for the chunk at \<open>i\<close>.
\<close>

definition chunkCall ::
  "(nat \<Rightarrow> fetch_outcome) \<Rightarrow> string \<Rightarrow> bool \<Rightarrow> chunk list \<Rightarrow> nat \<Rightarrow> single_result \<times> event list" where
  "chunkCall net language includeTimestamps chunks i =
     transcribeSingleAudio (net i) (blob (chunks ! i)) language False
       (Some (''chunk-'' @ show_nat (i + 1) @ ''.wav'')) includeTimestamps
       (startTime (chunks ! i))"

text \<open>\<^verbatim>\<open>totalText += (totalText ? " " : "") + result.text\<close>.\<close>

definition appendText :: "string \<Rightarrow> string \<Rightarrow> string" where
  "appendText totalText t = totalText @ (if totalText \<noteq> [] then '' '' else []) @ t"

function chunkLoop ::
  "(nat \<Rightarrow> fetch_outcome) \<Rightarrow> string \<Rightarrow> bool \<Rightarrow> bool \<Rightarrow> chunk list \<Rightarrow> nat
     \<Rightarrow> chunk_summary list \<Rightarrow> string \<Rightarrow> segment list \<Rightarrow> loop_exit \<times> event list" where
  "chunkLoop net language onProgress includeTimestamps chunks i transcriptions totalText allSegments =
     (if i < length chunks then
        (case chunkCall net language includeTimestamps chunks i of
           (SingleFailure err, events) \<Rightarrow>
             (Aborted (PartialFailure
                         (''Failed to transcribe chunk '' @ show_nat (i + 1) @ '': '' @ err)
                         totalText allSegments i (length chunks)),
              emit onProgress (chunkNote i (length chunks)) @ events)
         | (SingleSuccess t lang dur segments, events) \<Rightarrow>
             (case chunkLoop net language onProgress includeTimestamps chunks (i + 1)
                     (transcriptions @
                        [\<lparr>chunkIndex = i, sum_startTime = startTime (chunks ! i),
                          sum_endTime = endTime (chunks ! i),
                          sum_duration = chunk_duration (chunks ! i), sum_text = t\<rparr>])
                     (appendText totalText t) (allSegments @ segments) of
                (exit, trace) \<Rightarrow>
                  (exit, emit onProgress (chunkNote i (length chunks)) @ events @ trace)))
      else (Completed transcriptions totalText allSegments, []))"
  by pat_completeness auto

termination
  by (relation "measure (\<lambda>(net, language, onProgress, includeTimestamps, chunks, i, r).
                           length chunks - i)") auto

declare chunkLoop.simps [simp del]

definition transcribeAudio ::
  "audio_file \<Rightarrow> (nat \<Rightarrow> fetch_outcome) \<Rightarrow> string \<Rightarrow> bool \<Rightarrow> bool
     \<Rightarrow> (transcription_result \<times> event list) option" where
  "transcribeAudio file net language onProgress includeTimestamps =
     (let analyzing = emit onProgress (notice ''analyzing'' ''Analyzing audio file...'');
          chunkCheck = checkIfNeedsChunking file 25 300
      in if \<not> needsChunking chunkCheck then
           (case transcribeSingleAudio (net 0) OriginalFile language onProgress None
                   includeTimestamps 0 of
              (result, events) \<Rightarrow> Some (Single result, analyzing @ events))
         else
           (let chunking = emit onProgress
                  (notice ''chunking''
                     (''Splitting audio into ~'' @ show_int (estimatedChunks chunkCheck)
                      @ '' chunks...''))
            in case splitAudioIntoChunks file CHUNK_DURATION_SECONDS of
                 None \<Rightarrow> None
               | Some (Inl msg) \<Rightarrow>
                   Some (Single (SingleFailure msg),
                         analyzing @ chunking @ emit onProgress (notice ''error'' msg))
               | Some (Inr chunks) \<Rightarrow>
                   (let transcribing = emit onProgress
                          ((notice ''transcribing''
                              (''Transcribing '' @ show_nat (length chunks) @ '' chunks...''))
                           \<lparr>p_totalChunks := Some (length chunks)\<rparr>)
                    in case chunkLoop net language onProgress includeTimestamps chunks 0 [] [] [] of
                         (Aborted partial, trace) \<Rightarrow>
                           Some (partial, analyzing @ chunking @ transcribing @ trace)
                       | (Completed transcriptions totalText allSegments, trace) \<Rightarrow>
                           Some (ChunkedSuccess totalText allSegments transcriptions language
                                   (cc_duration chunkCheck) True,
                                 analyzing @ chunking @ transcribing @ trace @
                                 emit onProgress
                                   ((notice ''completed'' ''All chunks transcribed!'')
                                    \<lparr>p_progress := Some 100\<rparr>)))))"

subsection \<open>Observations on runs\<close>

text \<open>
  What the proxy answered: whether the call succeeded (a response with \<^verbatim>\<open>ok\<close>), the
  text and the segments of a successful answer, and the message that
  \<^verbatim>\<open>transcribeSingleAudio\<close> reports for a failed one. \<open>chunkUpload\<close> is the request
  that the loop sends for the chunk at \<open>i\<close>, \<open>chunkSummary\<close> the summary it pushes;
  \<open>uploads\<close> selects the requests of a trace.
  \<open>spaceJoined\<close> is \<^verbatim>\<open>texts.join(" ")\<close>, the reading of "space-joined" that the
  accumulated text is compared with.
\<close>

fun answered :: "fetch_outcome \<Rightarrow> bool" where
  "answered (Responded response_ok result) = response_ok"
| "answered (Threw msg) = False"

fun answer_text :: "fetch_outcome \<Rightarrow> string" where
  "answer_text (Responded response_ok result) = pb_text result"
| "answer_text (Threw msg) = []"

fun answer_segments :: "fetch_outcome \<Rightarrow> segment list" where
  "answer_segments (Responded response_ok result) =
     (case pb_segments result of None \<Rightarrow> [] | Some segs \<Rightarrow> segs)"
| "answer_segments (Threw msg) = []"

fun failure_message :: "fetch_outcome \<Rightarrow> string" where
  "failure_message (Threw msg) = msg"
| "failure_message (Responded response_ok result) =
     or_else (pb_error result) ''Failed to transcribe audio''"

definition chunkUpload :: "string \<Rightarrow> bool \<Rightarrow> chunk list \<Rightarrow> nat \<Rightarrow> event" where
  "chunkUpload language includeTimestamps chunks i =
     Upload (blob (chunks ! i))
       (case blob (chunks ! i) of
          WavChunk currentSample chunkSamples \<Rightarrow> Some (''chunk-'' @ show_nat (i + 1) @ ''.wav'')
        | OriginalFile \<Rightarrow> None)
       language includeTimestamps"

definition chunkSummary :: "(nat \<Rightarrow> fetch_outcome) \<Rightarrow> chunk list \<Rightarrow> nat \<Rightarrow> chunk_summary" where
  "chunkSummary net chunks i =
     \<lparr>chunkIndex = i, sum_startTime = startTime (chunks ! i), sum_endTime = endTime (chunks ! i),
      sum_duration = chunk_duration (chunks ! i), sum_text = answer_text (net i)\<rparr>"

fun uploads :: "event list \<Rightarrow> event list" where
  "uploads [] = []"
| "uploads (Upload p f l t # es) = Upload p f l t # uploads es"
| "uploads (Progress p # es) = uploads es"

fun spaceJoined :: "string list \<Rightarrow> string" where
  "spaceJoined [] = []"
| "spaceJoined [t] = t"
| "spaceJoined (t # u # ts) = t @ '' '' @ spaceJoined (u # ts)"

text \<open>
  The chunk that the loop of \<^verbatim>\<open>splitAudioIntoChunks\<close> builds in its iteration \<open>k\<close>
  when every earlier iteration advanced by \<open>samplesPerChunk\<close>.
\<close>

definition plannedChunk :: "real \<Rightarrow> real \<Rightarrow> nat \<Rightarrow> nat \<Rightarrow> chunk" where
  "plannedChunk samplesPerChunk rate totalSamples k =
     \<lparr>blob = WavChunk (real k * samplesPerChunk)
               (min samplesPerChunk (real totalSamples - real k * samplesPerChunk)),
      startTime = real k * samplesPerChunk / rate,
      endTime = (real k * samplesPerChunk
                 + min samplesPerChunk (real totalSamples - real k * samplesPerChunk)) / rate,
      index = k,
      chunk_duration =
        Some ((real k * samplesPerChunk
               + min samplesPerChunk (real totalSamples - real k * samplesPerChunk)) / rate
              - real k * samplesPerChunk / rate)\<rparr>"

text \<open>
  The outline of an event: the chunk index, total and progress value of a notification,
  or the filename of a request.
\<close>

fun outline :: "event \<Rightarrow> (nat option \<times> nat option \<times> real option) + string option" where
  "outline (Progress p) = Inl (p_currentChunk p, p_totalChunks p, p_progress p)"
| "outline (Upload payload filename language includeTimestamps) = Inr filename"

subsection \<open>Example inputs\<close>

text \<open>
  A network that times out, then fails generically, then answers with an HTTP error; a
  30 MB file whose duration cannot be probed; a 1 MB file of 301 seconds.
\<close>

definition flaky_net :: "nat \<Rightarrow> fetch_result" where
  "flaky_net n =
     (if n = 1 then Rejects \<lparr>cause_code = Some ''ETIMEDOUT'', message = None\<rparr>
      else if n = 2 then Rejects \<lparr>cause_code = None, message = Some ''TypeError: fetch failed''\<rparr>
      else Resolves \<lparr>ok = False, status = 503\<rparr>)"

definition big_unprobed :: audio_file where
  "big_unprobed = \<lparr>file_size = 31457280, probed_duration = None, decoded = Inl ''n/a''\<rparr>"

definition long_small :: audio_file where
  "long_small = \<lparr>file_size = 1048576, probed_duration = Some 301, decoded = Inl ''n/a''\<rparr>"

text \<open>
  A 700 second recording at 8 kHz in a 2 MB file, and the three chunks it is cut into; a
  proxy that hears a text in every chunk, one that loses the connection at the third
  chunk, and one whose first chunk is silence; a recording of 12000 samples at 11025 Hz,
  every sample \<open>1/2\<close>;
  a 180 second recording in a 30 MB file and in a 1 MB file.
\<close>

definition long_buffer :: audio_buffer where
  "long_buffer = \<lparr>sampleRate = 8000, buf_length = 5600000, channelData = [replicate 5600000 0]\<rparr>"

definition long_file :: audio_file where
  "long_file = \<lparr>file_size = 2097152, probed_duration = Some 700, decoded = Inr long_buffer\<rparr>"

definition long_chunks :: "chunk list" where
  "long_chunks = map (plannedChunk 2400000 8000 5600000) [0, 1, 2]"

definition heard :: "string \<Rightarrow> fetch_outcome" where
  "heard t = Responded True
     \<lparr>pb_error = None, pb_text = t, pb_language = ''en'', pb_duration = Some 300,
      pb_segments = Some [\<lparr>seg_id = 0, seg_start = 0, seg_end = 2, seg_text = t\<rparr>]\<rparr>"

definition silence :: fetch_outcome where
  "silence = Responded True
     \<lparr>pb_error = None, pb_text = [], pb_language = ''en'', pb_duration = Some 300,
      pb_segments = Some []\<rparr>"

definition drops_third :: "nat \<Rightarrow> fetch_outcome" where
  "drops_third n = (if n = 0 then heard ''hello'' else if n = 1 then heard ''world''
                    else Threw ''Failed to fetch'')"

definition silent_start :: "nat \<Rightarrow> fetch_outcome" where
  "silent_start n = (if n = 0 then silence else if n = 1 then heard ''b''
                     else Threw ''Failed to fetch'')"

definition always_answers :: "nat \<Rightarrow> fetch_outcome" where
  "always_answers n = heard ''ok''"

definition half_second_buffer :: audio_buffer where
  "half_second_buffer = \<lparr>sampleRate = 11025, buf_length = 12000, channelData = [replicate 12000 (1/2)]\<rparr>"

definition half_second_file :: audio_file where
  "half_second_file = \<lparr>file_size = 24044, probed_duration = None, decoded = Inr half_second_buffer\<rparr>"

text \<open>A decoded buffer of two channels and two frames.\<close>

definition stereo_buffer :: audio_buffer where
  "stereo_buffer = \<lparr>sampleRate = 8000, buf_length = 2, channelData = [[0, 1/2], [1, - 1/2]]\<rparr>"

definition hello_segment :: segment where
  "hello_segment = \<lparr>seg_id = 0, seg_start = 0, seg_end = 2, seg_text = ''hello''\<rparr>"

definition world_segment :: segment where
  "world_segment = \<lparr>seg_id = 0, seg_start = 300, seg_end = 302, seg_text = ''world''\<rparr>"

definition short_buffer :: audio_buffer where
  "short_buffer = \<lparr>sampleRate = 44100, buf_length = 7938000, channelData = [replicate 7938000 0]\<rparr>"

definition oversized_short_file :: audio_file where
  "oversized_short_file =
     \<lparr>file_size = 31457280, probed_duration = Some 180, decoded = Inr short_buffer\<rparr>"

definition small_file :: audio_file where
  "small_file = \<lparr>file_size = 1048576, probed_duration = Some 180, decoded = Inr short_buffer\<rparr>"

text \<open>
  A network whose connection is reset at every attempt and one that fails with an error
  that is not a transport error; a proxy that is lost from the second chunk on and one
  that never answers.
\<close>

definition dead_net :: "nat \<Rightarrow> fetch_result" where
  "dead_net n = Rejects \<lparr>cause_code = Some ''ECONNRESET'', message = None\<rparr>"

definition refused_net :: "nat \<Rightarrow> fetch_result" where
  "refused_net n = Rejects \<lparr>cause_code = None, message = Some ''Invalid URL''\<rparr>"

definition drops_second :: "nat \<Rightarrow> fetch_outcome" where
  "drops_second n = (if n = 0 then heard ''hello'' else Threw ''Failed to fetch'')"

definition never_answers :: "nat \<Rightarrow> fetch_outcome" where
  "never_answers n = Threw ''Failed to fetch''"

section \<open>Properties\<close>

subsection \<open>Timestamp formatter\<close>

lemma digit_char_0: "digit_char 0 = CHR ''0''"
  by (simp add: digit_char_def)

lemma show_nat_digit: "n < 10 \<Longrightarrow> show_nat n = [digit_char n]"
  by (simp add: show_nat.simps)

lemma show_nat_two_digits:
  "10 \<le> n \<Longrightarrow> n < 100 \<Longrightarrow> show_nat n = [digit_char (n div 10), digit_char (n mod 10)]"
  by (subst show_nat.simps) (simp add: show_nat_digit)

lemma length_show_nat_pos: "0 < length (show_nat n)"
  by (subst show_nat.simps) simp

lemma length_show_nat: "10 \<le> n \<Longrightarrow> 2 \<le> length (show_nat n)"
  using length_show_nat_pos [of "n div 10"] by (subst show_nat.simps) (simp add: Suc_le_eq del: length_greater_0_conv)

lemma pad_two_digits:
  "n < 100 \<Longrightarrow> padStart (show_int (int n)) 2 CHR ''0'' = [digit_char (n div 10), digit_char (n mod 10)]"
  by (cases "n < 10") (simp_all add: padStart_def show_int_def show_nat_digit show_nat_two_digits digit_char_0)

lemma pad_hours:
  "padStart (show_int (int h)) 2 CHR ''0'' = (if h < 10 then [CHR ''0'', digit_char h] else show_nat h)"
  using length_show_nat [of h]
  by (simp add: padStart_def show_int_def show_nat_digit)

lemma floor_hours:
  fixes seconds :: real
  shows "\<lfloor>seconds / 3600\<rfloor> = \<lfloor>seconds\<rfloor> div 3600"
  using floor_divide_real_eq_div [of 3600 seconds] by simp

lemma floor_mins:
  fixes seconds :: real
  assumes "0 \<le> seconds"
  shows "\<lfloor>js_rem seconds 3600 / 60\<rfloor> = \<lfloor>seconds\<rfloor> mod 3600 div 60"
proof -
  have "js_rem seconds 3600 = seconds - of_int (3600 * (\<lfloor>seconds\<rfloor> div 3600))"
    using assms by (simp add: js_rem_def js_trunc_def floor_hours)
  then have "\<lfloor>js_rem seconds 3600\<rfloor> = \<lfloor>seconds\<rfloor> - 3600 * (\<lfloor>seconds\<rfloor> div 3600)"
    by (simp only: floor_diff_of_int)
  then have "\<lfloor>js_rem seconds 3600\<rfloor> = \<lfloor>seconds\<rfloor> mod 3600"
    by (simp add: minus_mult_div_eq_mod)
  then show ?thesis
    using floor_divide_real_eq_div [of 60 "js_rem seconds 3600"] by simp
qed

lemma floor_secs:
  fixes seconds :: real
  assumes "0 \<le> seconds"
  shows "\<lfloor>js_rem seconds 60\<rfloor> = \<lfloor>seconds\<rfloor> mod 60"
proof -
  have "\<lfloor>seconds / 60\<rfloor> = \<lfloor>seconds\<rfloor> div 60"
    using floor_divide_real_eq_div [of 60 seconds] by simp
  then have "js_rem seconds 60 = seconds - of_int (60 * (\<lfloor>seconds\<rfloor> div 60))"
    using assms by (simp add: js_rem_def js_trunc_def)
  then have "\<lfloor>js_rem seconds 60\<rfloor> = \<lfloor>seconds\<rfloor> - 60 * (\<lfloor>seconds\<rfloor> div 60)"
    by (simp only: floor_diff_of_int)
  then show ?thesis
    by (simp add: minus_mult_div_eq_mod)
qed

lemma formatTimestamp_nat:
  fixes seconds :: real
  assumes "0 \<le> seconds"
  shows "formatTimestamp seconds =
     (let t = nat \<lfloor>seconds\<rfloor>; h = t div 3600; m = t mod 3600 div 60; s = t mod 60;
          mm = [digit_char (m div 10), digit_char (m mod 10)];
          ss = [digit_char (s div 10), digit_char (s mod 10)]
      in if 0 < h then (if h < 10 then [CHR ''0'', digit_char h] else show_nat h) @ '':'' @ mm @ '':'' @ ss
         else mm @ '':'' @ ss)"
proof -
  define t where "t = nat \<lfloor>seconds\<rfloor>"
  have t: "\<lfloor>seconds\<rfloor> = int t"
    using assms by (simp add: t_def)
  have h: "\<lfloor>seconds / 3600\<rfloor> = int (t div 3600)"
    by (simp add: floor_hours t zdiv_int)
  have m: "\<lfloor>js_rem seconds 3600 / 60\<rfloor> = int (t mod 3600 div 60)"
    by (simp add: floor_mins [OF assms] t zdiv_int zmod_int)
  have s: "\<lfloor>js_rem seconds 60\<rfloor> = int (t mod 60)"
    by (simp add: floor_secs [OF assms] t zmod_int)
  have "t mod 3600 < 3600"
    by simp
  then have m60: "t mod 3600 div 60 < 100"
    by (simp add: less_mult_imp_div_less)
  have "t mod 60 < 60"
    by simp
  then have s60: "t mod 60 < 100"
    by linarith
  note pm = pad_two_digits [OF m60] and ps = pad_two_digits [OF s60]
  show ?thesis
    unfolding formatTimestamp_def h m s Let_def t_def [symmetric]
    apply (simp only: pm ps)
    apply (simp only: pad_hours)
    apply simp
    done
qed

text \<open>
  Claim C9. For every non-negative number of seconds the formatter yields \<open>HH:MM:SS\<close>
  when the value is at least one hour and \<open>MM:SS\<close> otherwise: the minutes and seconds
  fields are exactly two decimal digits, the hours field is the decimal rendering of the
  hours padded with a zero to at least two characters. In particular \<open>3661\<close> gives
  \<open>01:01:01\<close> and \<open>65\<close> gives \<open>01:05\<close>.
\<close>

theorem formatTimestamp_fields:
  fixes seconds :: real
  assumes "0 \<le> seconds"
  shows "(let t = nat \<lfloor>seconds\<rfloor>; h = t div 3600; m = t mod 3600 div 60; s = t mod 60;
              hh = (if h < 10 then [CHR ''0'', digit_char h] else show_nat h);
              mm = [digit_char (m div 10), digit_char (m mod 10)];
              ss = [digit_char (s div 10), digit_char (s mod 10)]
          in (3600 \<le> seconds \<longrightarrow> formatTimestamp seconds = hh @ '':'' @ mm @ '':'' @ ss) \<and>
             (seconds < 3600 \<longrightarrow> formatTimestamp seconds = mm @ '':'' @ ss) \<and>
             2 \<le> length hh \<and> m < 60 \<and> s < 60) \<and>
         formatTimestamp 3661 = ''01:01:01'' \<and> formatTimestamp 65 = ''01:05''"
proof -
  define t where "t = nat \<lfloor>seconds\<rfloor>"
  have "3600 \<le> seconds \<longleftrightarrow> 3600 \<le> \<lfloor>seconds\<rfloor>"
    by linarith
  also have "\<dots> \<longleftrightarrow> 3600 \<le> t"
    using assms by (simp add: t_def le_nat_iff)
  also have "\<dots> \<longleftrightarrow> 0 < t div 3600"
    by (simp add: div_greater_zero_iff)
  finally have hours: "(0 < t div 3600) = (3600 \<le> seconds)"
    by simp
  have m: "t mod 3600 div 60 < 60"
    by (simp add: less_mult_imp_div_less)
  have examples: "formatTimestamp 3661 = ''01:01:01''" "formatTimestamp 65 = ''01:05''"
    by (simp_all add: formatTimestamp_def js_rem_def js_trunc_def show_int_def show_nat.simps
                      padStart_def digit_char_def)
  show ?thesis
    using hours m length_show_nat [of "t div 3600"]
    by (auto simp: formatTimestamp_nat [OF assms] examples Let_def t_def [symmetric])
qed

theorem formatTimestamp_fields_witness:
  "(0::real) \<le> 7384.5 \<and> formatTimestamp 7384.5 = ''02:03:04'' \<and>
   (0::real) \<le> 59 \<and> formatTimestamp 59 = ''00:59''"
  using formatTimestamp_fields [of "7384.5"] formatTimestamp_fields [of 59]
  by (simp add: Let_def digit_char_def)

subsection \<open>Timestamp reconciliation\<close>

text \<open>
  Claim C4. With a positive offset, reconciliation returns a list of the same length and
  order in which every segment has its start and end increased by exactly the offset and
  its other fields unchanged; with offset \<open>0\<close> it is the identity. The function is
  a pure function of its arguments: the input list is a value and is not changed.
\<close>

theorem reconcile_shifts_start_and_end:
  "(0 < offsetSeconds \<longrightarrow>
      length (reconcile segments offsetSeconds) = length segments \<and>
      (\<forall>i < length segments.
         seg_start (reconcile segments offsetSeconds ! i) = seg_start (segments ! i) + offsetSeconds \<and>
         seg_end (reconcile segments offsetSeconds ! i) = seg_end (segments ! i) + offsetSeconds \<and>
         seg_id (reconcile segments offsetSeconds ! i) = seg_id (segments ! i) \<and>
         seg_text (reconcile segments offsetSeconds ! i) = seg_text (segments ! i))) \<and>
   reconcile segments 0 = segments"
  by (simp add: reconcile_def)

theorem reconcile_shifts_start_and_end_witness:
  "(0::real) < 300 \<and>
   reconcile [\<lparr>seg_id = 0, seg_start = 0, seg_end = 2.5, seg_text = ''hello''\<rparr>,
              \<lparr>seg_id = 1, seg_start = 2.5, seg_end = 4, seg_text = ''world''\<rparr>] 300 ! 1
     = \<lparr>seg_id = 1, seg_start = 302.5, seg_end = 304, seg_text = ''world''\<rparr>"
  using reconcile_shifts_start_and_end
          [of 300 "[\<lparr>seg_id = 0, seg_start = 0, seg_end = 2.5, seg_text = ''hello''\<rparr>,
                    \<lparr>seg_id = 1, seg_start = 2.5, seg_end = 4, seg_text = ''world''\<rparr>]"]
  by (auto intro!: segment.equality)

subsection \<open>Chunk-need classifier\<close>

text \<open>
  Claim C5. The classifier decides by size first (reason citing size), then, when the
  duration is known, by duration (reason citing duration), and otherwise requires no
  chunking with no reason. It is total: when the probe fails it answers from the size
  alone, with no duration, and estimates the chunk count as the ceiling of the size in MB
  over 10; when the duration is known and chunking is needed the estimate is the ceiling of
  the duration over the chunk duration.
\<close>

theorem checkIfNeedsChunking_decision:
  "(let fileSizeMB = real (file_size file) / (1024 * 1024);
        r = checkIfNeedsChunking file maxSizeMB maxDurationSeconds
    in (fileSizeMB > maxSizeMB \<longrightarrow>
          needsChunking r \<and>
          reason r = Some (FileSizeExceeds (map_option (\<lambda>d. fileSizeMB) (probed_duration file))
                             maxSizeMB)) \<and>
       (\<not> fileSizeMB > maxSizeMB \<longrightarrow>
          (\<forall>d. probed_duration file = Some d \<and> d > maxDurationSeconds \<longrightarrow>
                needsChunking r \<and> reason r = Some (DurationExceeds d maxDurationSeconds))) \<and>
       (\<not> fileSizeMB > maxSizeMB \<and>
        (\<forall>d. probed_duration file = Some d \<longrightarrow> \<not> d > maxDurationSeconds) \<longrightarrow>
          \<not> needsChunking r \<and> reason r = None \<and> estimatedChunks r = 1) \<and>
       (probed_duration file = None \<longrightarrow>
          cc_duration r = None \<and> needsChunking r = (fileSizeMB > maxSizeMB) \<and>
          (needsChunking r \<longrightarrow> estimatedChunks r = \<lceil>fileSizeMB / 10\<rceil>)) \<and>
       (\<forall>d. probed_duration file = Some d \<longrightarrow>
          cc_duration r = Some d \<and>
          (needsChunking r \<longrightarrow> estimatedChunks r = \<lceil>d / CHUNK_DURATION_SECONDS\<rceil>)))"
  by (cases "probed_duration file") (simp_all add: checkIfNeedsChunking_def Let_def)

theorem checkIfNeedsChunking_decision_witness:
  "real (file_size big_unprobed) / (1024 * 1024) > 25 \<and>
   probed_duration big_unprobed = None \<and>
   needsChunking (checkIfNeedsChunking big_unprobed 25 300) \<and>
   reason (checkIfNeedsChunking big_unprobed 25 300) = Some (FileSizeExceeds None 25) \<and>
   estimatedChunks (checkIfNeedsChunking big_unprobed 25 300) = 3 \<and>
   \<not> real (file_size long_small) / (1024 * 1024) > 25 \<and>
   probed_duration long_small = Some 301 \<and>
   reason (checkIfNeedsChunking long_small 25 300) = Some (DurationExceeds 301 300) \<and>
   estimatedChunks (checkIfNeedsChunking long_small 25 300) = 2 \<and>
   \<not> real (file_size small_file) / (1024 * 1024) > 25 \<and>
   probed_duration small_file = Some 180 \<and>
   \<not> needsChunking (checkIfNeedsChunking small_file 25 300) \<and>
   reason (checkIfNeedsChunking small_file 25 300) = None \<and>
   estimatedChunks (checkIfNeedsChunking small_file 25 300) = 1"
  using checkIfNeedsChunking_decision [of big_unprobed 25 300]
        checkIfNeedsChunking_decision [of long_small 25 300]
        checkIfNeedsChunking_decision [of small_file 25 300]
  by (simp add: big_unprobed_def long_small_def small_file_def Let_def CHUNK_DURATION_SECONDS_def)

subsection \<open>Retry helper\<close>

lemma fetchLoop_resolves:
  "attempt \<le> retries \<Longrightarrow> net attempt = Resolves r \<Longrightarrow>
   fetchLoop net retries attempt = (Returned r, [FetchAttempt attempt])"
  by (subst fetchLoop.simps) simp

lemma fetchLoop_throws:
  "attempt \<le> retries \<Longrightarrow> net attempt = Rejects e \<Longrightarrow> attempt = retries \<or> \<not> isRetryable e \<Longrightarrow>
   fetchLoop net retries attempt = (Thrown e, [FetchAttempt attempt])"
  by (subst fetchLoop.simps) auto

lemma fetchLoop_retries:
  "attempt < retries \<Longrightarrow> net attempt = Rejects e \<Longrightarrow> isRetryable e \<Longrightarrow>
   fetchLoop net retries attempt =
     (fst (fetchLoop net retries (Suc attempt)),
      [FetchAttempt attempt,
       ConsoleLog (''Attempt '' @ show_nat attempt @ '' failed, retrying in ''
                   @ show_nat RETRY_DELAY_MS @ ''ms...''),
       SetTimeout (RETRY_DELAY_MS * attempt)] @ snd (fetchLoop net retries (Suc attempt)))"
  by (subst fetchLoop.simps) (simp add: case_prod_beta)

lemma fetchLoop_retries_log:
  "attempt < retries \<Longrightarrow> net attempt = Rejects e \<Longrightarrow> isRetryable e \<Longrightarrow>
   fetchLoop net retries attempt =
     (fst (fetchLoop net retries (Suc attempt)),
      [FetchAttempt attempt, retryLog attempt, SetTimeout (1000 * attempt)]
      @ snd (fetchLoop net retries (Suc attempt)))"
  by (simp add: fetchLoop_retries retryLog_def RETRY_DELAY_MS_def)

lemma fetchWithRetry_cases:
  "(\<exists>r. net 1 = Resolves r \<and> fetchWithRetry net = (Returned r, [FetchAttempt 1])) \<or>
   (\<exists>e. net 1 = Rejects e \<and> \<not> isRetryable e \<and>
        fetchWithRetry net = (Thrown e, [FetchAttempt 1])) \<or>
   (\<exists>e1 r. net 1 = Rejects e1 \<and> isRetryable e1 \<and> net 2 = Resolves r \<and>
        fetchWithRetry net =
          (Returned r, [FetchAttempt 1, retryLog 1, SetTimeout 1000, FetchAttempt 2])) \<or>
   (\<exists>e1 e2. net 1 = Rejects e1 \<and> isRetryable e1 \<and> net 2 = Rejects e2 \<and> \<not> isRetryable e2 \<and>
        fetchWithRetry net =
          (Thrown e2, [FetchAttempt 1, retryLog 1, SetTimeout 1000, FetchAttempt 2])) \<or>
   (\<exists>e1 e2 r. net 1 = Rejects e1 \<and> isRetryable e1 \<and> net 2 = Rejects e2 \<and> isRetryable e2 \<and>
        net 3 = Resolves r \<and>
        fetchWithRetry net =
          (Returned r, [FetchAttempt 1, retryLog 1, SetTimeout 1000, FetchAttempt 2,
                        retryLog 2, SetTimeout 2000, FetchAttempt 3])) \<or>
   (\<exists>e1 e2 e3. net 1 = Rejects e1 \<and> isRetryable e1 \<and> net 2 = Rejects e2 \<and> isRetryable e2 \<and>
        net 3 = Rejects e3 \<and>
        fetchWithRetry net =
          (Thrown e3, [FetchAttempt 1, retryLog 1, SetTimeout 1000, FetchAttempt 2,
                       retryLog 2, SetTimeout 2000, FetchAttempt 3]))"
proof -
  have s2: "Suc 1 = 2" and s3: "Suc 2 = 3"
    by simp_all
  note step1 = fetchLoop_retries_log [of 1 3 net, unfolded s2]
  note step2 = fetchLoop_retries_log [of 2 3 net, unfolded s3]
  show ?thesis
  proof (cases "net 1")
    case (Resolves r)
    then show ?thesis
      by (simp add: fetchWithRetry_def MAX_RETRIES_def fetchLoop_resolves)
  next
    case r1: (Rejects e1)
    show ?thesis
    proof (cases "isRetryable e1")
      case False
      with r1 show ?thesis
        by (simp add: fetchWithRetry_def MAX_RETRIES_def fetchLoop_throws)
    next
      case t1: True
      have one: "fetchWithRetry net =
          (fst (fetchLoop net 3 2),
           [FetchAttempt 1, retryLog 1, SetTimeout 1000] @ snd (fetchLoop net 3 2))"
        unfolding fetchWithRetry_def MAX_RETRIES_def
        using step1 [OF _ r1 t1] by simp
      show ?thesis
      proof (cases "net 2")
        case (Resolves r)
        then have "fetchLoop net 3 2 = (Returned r, [FetchAttempt 2])"
          by (simp add: fetchLoop_resolves)
        with one r1 t1 Resolves show ?thesis
          by simp
      next
        case r2: (Rejects e2)
        show ?thesis
        proof (cases "isRetryable e2")
          case False
          with r2 have "fetchLoop net 3 2 = (Thrown e2, [FetchAttempt 2])"
            by (simp add: fetchLoop_throws)
          with one r1 t1 r2 False show ?thesis
            by simp
        next
          case t2: True
          have two: "fetchLoop net 3 2 =
              (fst (fetchLoop net 3 3),
               [FetchAttempt 2, retryLog 2, SetTimeout 2000] @ snd (fetchLoop net 3 3))"
            using step2 [OF _ r2 t2] by simp
          show ?thesis
          proof (cases "net 3")
            case (Resolves r)
            then have "fetchLoop net 3 3 = (Returned r, [FetchAttempt 3])"
              by (simp add: fetchLoop_resolves)
            with one two r1 t1 r2 t2 Resolves show ?thesis
              by simp
          next
            case (Rejects e3)
            then have "fetchLoop net 3 3 = (Thrown e3, [FetchAttempt 3])"
              by (simp add: fetchLoop_throws)
            with one two r1 t1 r2 t2 Rejects show ?thesis
              by simp
          qed
        qed
      qed
    qed
  qed
qed

lemma retry_traces:
  "concat (map (\<lambda>n. [FetchAttempt n, retryLog n, SetTimeout (1000 * n)]) [1 ..< 1]) = []"
  "concat (map (\<lambda>n. [FetchAttempt n, retryLog n, SetTimeout (1000 * n)]) [1 ..< 2])
     = [FetchAttempt 1, retryLog 1, SetTimeout 1000]"
  "concat (map (\<lambda>n. [FetchAttempt n, retryLog n, SetTimeout (1000 * n)]) [1 ..< 3])
     = [FetchAttempt 1, retryLog 1, SetTimeout 1000, FetchAttempt 2, retryLog 2, SetTimeout 2000]"
  "[1 ..< 2] = [1::nat]" "[1 ..< 3] = [1, 2::nat]" "[1 ..< 4] = [1, 2, 3::nat]"
  "fetchAttempts [retryLog n] = []" "delays [retryLog n] = []"
  "fetchAttempts (retryLog n # es) = fetchAttempts es" "delays (retryLog n # es) = delays es"
  by (simp_all add: upt_rec retryLog_def numeral_2_eq_2)

text \<open>
  Claim C3. \<^verbatim>\<open>fetch\<close> is attempted at most three times, the attempts being numbered
  from 1. The whole run is fixed: every attempt \<open>n\<close> but the last is followed at once by
  its line on the console and by the awaited timer of \<open>1000 * n\<close> milliseconds, after
  which attempt \<open>n + 1\<close> is made; nothing follows the last attempt. So the delay of
  \<open>1000 * n\<close> milliseconds lies between attempt \<open>n\<close> and attempt \<open>n + 1\<close>, and there is no
  other delay. A further attempt is made only after an attempt that threw a retryable
  (transport-level) error; a response of the provider, whatever its status, is returned
  at once and an error that is not retryable is thrown at once. When the third attempt
  throws, its error is thrown to the caller.
\<close>

theorem fetchWithRetry_policy:
  "(case fetchWithRetry net of (outcome, trace) \<Rightarrow>
      1 \<le> length (fetchAttempts trace) \<and>
      length (fetchAttempts trace) \<le> 3 \<and>
      trace = concat (map (\<lambda>n. [FetchAttempt n, retryLog n, SetTimeout (1000 * n)])
                          [1 ..< length (fetchAttempts trace)])
              @ [FetchAttempt (length (fetchAttempts trace))] \<and>
      fetchAttempts trace = [1 ..< Suc (length (fetchAttempts trace))] \<and>
      delays trace = map (\<lambda>n. 1000 * n) [1 ..< length (fetchAttempts trace)] \<and>
      (\<forall>n. Suc n \<in> set (fetchAttempts trace) \<and> 1 \<le> n \<longrightarrow>
           (\<exists>e. net n = Rejects e \<and> isRetryable e)) \<and>
      (\<forall>n r. n \<in> set (fetchAttempts trace) \<and> net n = Resolves r \<longrightarrow>
           outcome = Returned r \<and> Suc n \<notin> set (fetchAttempts trace)) \<and>
      (\<forall>n e. n \<in> set (fetchAttempts trace) \<and> net n = Rejects e \<and> \<not> isRetryable e \<longrightarrow>
           outcome = Thrown e \<and> Suc n \<notin> set (fetchAttempts trace)) \<and>
      (\<forall>e. length (fetchAttempts trace) = 3 \<and> net 3 = Rejects e \<longrightarrow> outcome = Thrown e))"
  using fetchWithRetry_cases [of net]
  by (elim disjE exE conjE) (simp_all add: retry_traces, auto simp: numeral_2_eq_2)

theorem fetchWithRetry_policy_witness:
  "fetchAttempts (snd (fetchWithRetry flaky_net)) = [1, 2, 3] \<and>
   delays (snd (fetchWithRetry flaky_net)) = [1000, 2000] \<and>
   snd (fetchWithRetry flaky_net) =
     [FetchAttempt 1, ConsoleLog ''Attempt 1 failed, retrying in 1000ms...'', SetTimeout 1000,
      FetchAttempt 2, ConsoleLog ''Attempt 2 failed, retrying in 1000ms...'', SetTimeout 2000,
      FetchAttempt 3] \<and>
   flaky_net 3 = Resolves \<lparr>ok = False, status = 503\<rparr> \<and>
   fst (fetchWithRetry flaky_net) = Returned \<lparr>ok = False, status = 503\<rparr> \<and>
   fetchAttempts (snd (fetchWithRetry dead_net)) = [1, 2, 3] \<and>
   fst (fetchWithRetry dead_net) = Thrown \<lparr>cause_code = Some ''ECONNRESET'', message = None\<rparr> \<and>
   fetchAttempts (snd (fetchWithRetry refused_net)) = [1] \<and>
   snd (fetchWithRetry refused_net) = [FetchAttempt 1] \<and>
   fst (fetchWithRetry refused_net) = Thrown \<lparr>cause_code = None, message = Some ''Invalid URL''\<rparr>"
proof -
  have run: "fetchAttempts (snd (fetchWithRetry flaky_net)) = [1, 2, 3]"
    by code_simp
  have answer: "flaky_net 3 = Resolves \<lparr>ok = False, status = 503\<rparr>"
    by (simp add: flaky_net_def)
  have logs: "retryLog (Suc 0) = ConsoleLog ''Attempt 1 failed, retrying in 1000ms...''"
             "retryLog (Suc (Suc 0)) = ConsoleLog ''Attempt 2 failed, retrying in 1000ms...''"
    by code_simp+
  from fetchWithRetry_policy [of flaky_net] run answer
  have flaky: "delays (snd (fetchWithRetry flaky_net)) = [1000, 2000] \<and>
        snd (fetchWithRetry flaky_net) =
          [FetchAttempt 1, ConsoleLog ''Attempt 1 failed, retrying in 1000ms...'', SetTimeout 1000,
           FetchAttempt 2, ConsoleLog ''Attempt 2 failed, retrying in 1000ms...'', SetTimeout 2000,
           FetchAttempt 3] \<and>
        fst (fetchWithRetry flaky_net) = Returned \<lparr>ok = False, status = 503\<rparr>"
    by (auto simp: case_prod_beta retry_traces logs)
  have dead_run: "fetchAttempts (snd (fetchWithRetry dead_net)) = [1, 2, 3]"
    by code_simp
  have "dead_net 3 = Rejects \<lparr>cause_code = Some ''ECONNRESET'', message = None\<rparr>"
    by (simp add: dead_net_def)
  with fetchWithRetry_policy [of dead_net] dead_run
  have dead: "fst (fetchWithRetry dead_net)
              = Thrown \<lparr>cause_code = Some ''ECONNRESET'', message = None\<rparr>"
    by (auto simp: case_prod_beta)
  have refused_run: "fetchAttempts (snd (fetchWithRetry refused_net)) = [1]"
    by code_simp
  have "refused_net 1 = Rejects \<lparr>cause_code = None, message = Some ''Invalid URL''\<rparr>"
       "\<not> isRetryable \<lparr>cause_code = None, message = Some ''Invalid URL''\<rparr>"
    by (simp_all add: refused_net_def isRetryable_def)
  with fetchWithRetry_policy [of refused_net] refused_run
  have refused: "fst (fetchWithRetry refused_net)
                 = Thrown \<lparr>cause_code = None, message = Some ''Invalid URL''\<rparr> \<and>
                 snd (fetchWithRetry refused_net) = [FetchAttempt 1]"
    by (auto simp: case_prod_beta retry_traces)
  from run answer flaky dead_run dead refused_run refused show ?thesis
    by simp
qed

subsection \<open>Chunk planning\<close>

lemma splitLoop_stop:
  "\<not> c < real tot \<Longrightarrow> splitLoop p rate tot c k acc = Some acc"
  by (subst splitLoop.simps) simp

lemma splitLoop_step:
  assumes "real (Suc k) * p < real tot" "0 < p"
  shows "splitLoop p rate tot (real k * p) k acc =
         splitLoop p rate tot (real (Suc k) * p) (Suc k) (acc @ [plannedChunk p rate tot k])"
proof -
  have "real k * p < real tot"
    using assms by (simp add: algebra_simps)
  moreover have "min p (real tot - real k * p) = p"
    using assms by (simp add: algebra_simps)
  ultimately show ?thesis
    by (subst splitLoop.simps) (simp add: plannedChunk_def Let_def algebra_simps)
qed

lemma splitLoop_last:
  assumes "real k * p < real tot" "real tot \<le> real (Suc k) * p"
  shows "splitLoop p rate tot (real k * p) k acc = Some (acc @ [plannedChunk p rate tot k])"
proof -
  have m: "min p (real tot - real k * p) = real tot - real k * p"
    using assms by (simp add: algebra_simps)
  show ?thesis
    using assms(1)
    by (subst splitLoop.simps) (simp add: m Let_def splitLoop_stop plannedChunk_def)
qed

lemma splitLoop_plan:
  assumes "0 < p" "k < n" "real (n - 1) * p < real tot" "real tot \<le> real n * p"
  shows "splitLoop p rate tot (real k * p) k acc
         = Some (acc @ map (plannedChunk p rate tot) [k ..< n])"
  using assms(2)
proof (induction "n - k" arbitrary: k acc)
  case 0
  then show ?case by simp
next
  case (Suc d)
  show ?case
  proof (cases "Suc k = n")
    case True
    then have "real k * p < real tot" "real tot \<le> real (Suc k) * p"
      using assms(3,4) by auto
    then show ?thesis
      using True by (simp add: splitLoop_last upt_conv_Cons)
  next
    case False
    with Suc.prems have lt: "Suc k < n"
      by simp
    then have "real (Suc k) \<le> real (n - 1)"
      by (simp add: less_eq_Suc_le)
    then have "real (Suc k) * p \<le> real (n - 1) * p"
      using assms(1) by (simp only: mult_le_cancel_right_pos)
    then have "real (Suc k) * p < real tot"
      using assms(3) by linarith
    then have "splitLoop p rate tot (real k * p) k acc =
               splitLoop p rate tot (real (Suc k) * p) (Suc k) (acc @ [plannedChunk p rate tot k])"
      using assms(1) by (rule splitLoop_step)
    also have "\<dots> = Some ((acc @ [plannedChunk p rate tot k])
                         @ map (plannedChunk p rate tot) [Suc k ..< n])"
      using Suc.hyps lt by (intro Suc.hyps(1)) simp_all
    finally show ?thesis
      using Suc.prems by (simp add: upt_conv_Cons)
  qed
qed

text \<open>Number of chunks: the least \<open>n\<close> with \<open>total \<le> n * p\<close>.\<close>

lemma chunk_count:
  fixes p :: real
  assumes "0 < p" "0 < tot"
  defines "n \<equiv> nat \<lceil>real tot / p\<rceil>"
  shows "0 < n" "real (n - 1) * p < real tot" "real tot \<le> real n * p"
proof -
  have pos: "0 < real tot / p"
    using assms by simp
  then have c: "0 < \<lceil>real tot / p\<rceil>"
    by simp
  then show "0 < n"
    by (simp add: n_def)
  have n: "real n = real_of_int \<lceil>real tot / p\<rceil>"
    using c by (simp add: n_def)
  have "real tot / p \<le> real n"
    unfolding n by (rule le_of_int_ceiling)
  then show "real tot \<le> real n * p"
    using assms(1) by (simp add: pos_divide_le_eq)
  have "real n - 1 < real tot / p"
    unfolding n using ceiling_correct [of "real tot / p"] by linarith
  moreover have "real (n - 1) = real n - 1"
    using \<open>0 < n\<close> by (simp add: of_nat_diff)
  ultimately show "real (n - 1) * p < real tot"
    using assms(1) by (simp add: pos_less_divide_eq)
qed

lemma splitAudioIntoChunks_plan:
  assumes "decoded file = Inr audioBuffer"
      and "0 < sampleRate audioBuffer" "0 < chunkDurationSeconds"
      and "chunkDurationSeconds < buf_duration audioBuffer"
  shows "splitAudioIntoChunks file chunkDurationSeconds =
         Some (Inr (map (plannedChunk (chunkDurationSeconds * sampleRate audioBuffer)
                           (sampleRate audioBuffer) (buf_length audioBuffer))
                        [0 ..< nat \<lceil>real (buf_length audioBuffer)
                                     / (chunkDurationSeconds * sampleRate audioBuffer)\<rceil>]))"
proof -
  let ?p = "chunkDurationSeconds * sampleRate audioBuffer"
  let ?tot = "buf_length audioBuffer"
  have p: "0 < ?p"
    using assms(2,3) by simp
  have "0 < buf_duration audioBuffer"
    using assms(3,4) by linarith
  then have tot: "0 < ?tot"
    using assms(2) by (simp add: buf_duration_def zero_less_divide_iff)
  note n = chunk_count [OF p tot]
  have "splitLoop ?p (sampleRate audioBuffer) ?tot (real 0 * ?p) 0 []
        = Some ([] @ map (plannedChunk ?p (sampleRate audioBuffer) ?tot)
                         [0 ..< nat \<lceil>real ?tot / ?p\<rceil>])"
    using p n by (rule splitLoop_plan)
  then show ?thesis
    using assms(1,4) by (simp add: splitAudioIntoChunks_def Let_def)
qed

lemma window_plannedChunk:
  "window (plannedChunk p rate tot k) = (real k * p, min (real (Suc k) * p) (real tot))"
  by (simp add: window_def plannedChunk_def algebra_simps min_def)

lemma planned_start_below:
  assumes "0 < p" "k < n" "real (n - 1) * p < real tot"
  shows "real k * p < real tot"
proof -
  have "real k \<le> real (n - 1)"
    using assms(2) by simp
  then have "real k * p \<le> real (n - 1) * p"
    using assms(1) by (simp only: mult_le_cancel_right_pos)
  then show ?thesis
    using assms(3) by linarith
qed

lemma planned_full:
  assumes "0 < p" "Suc k < n" "real (n - 1) * p < real tot"
  shows "min (real (Suc k) * p) (real tot) = real (Suc k) * p"
  using planned_start_below [OF assms] by simp

lemma planned_union:
  assumes "0 < p" "m \<le> n" "real (n - 1) * p < real tot"
  shows "(\<Union>k \<in> {0 ..< m}. {real k * p ..< min (real (Suc k) * p) (real tot)})
         = {0 ..< min (real m * p) (real tot)}"
  using assms(2)
proof (induction m)
  case 0
  then show ?case by simp
next
  case (Suc m)
  then have "m < n"
    by simp
  have below: "real m * p < real tot"
    using assms(1) \<open>m < n\<close> assms(3) by (rule planned_start_below)
  have le: "real m * p \<le> min (real (Suc m) * p) (real tot)"
    using below assms(1) by (simp add: algebra_simps)
  have nonneg: "0 \<le> real m * p"
    using assms(1) by simp
  have "(\<Union>k \<in> {0 ..< Suc m}. {real k * p ..< min (real (Suc k) * p) (real tot)})
        = (\<Union>k \<in> {0 ..< m}. {real k * p ..< min (real (Suc k) * p) (real tot)})
          \<union> {real m * p ..< min (real (Suc m) * p) (real tot)}"
    by (simp add: atLeast0_lessThan_Suc Un_commute)
  also have "\<dots> = {0 ..< real m * p} \<union> {real m * p ..< min (real (Suc m) * p) (real tot)}"
    using Suc below by simp
  also have "\<dots> = {0 ..< min (real (Suc m) * p) (real tot)}"
    using nonneg le by (rule ivl_disj_un_two)
  finally show ?case .
qed

text \<open>
  Planning on integer products. For every positive sample rate and positive chunk
  duration whose product \<open>chunkDurationSeconds * sampleRate\<close> is an integer
  \<open>samplesPerChunk\<close> (so that it is its own floor) smaller than the number of samples,
  the loop ends and the windows of the chunks are contiguous, pairwise disjoint and cover
  exactly \<open>[0, totalSamples)\<close>; window \<open>k\<close> starts at \<open>k * samplesPerChunk\<close>, every window
  but the last has \<open>samplesPerChunk\<close> samples, and the last ends at \<open>totalSamples\<close>.
\<close>

theorem splitAudioIntoChunks_windows:
  assumes "decoded file = Inr audioBuffer"
      and "0 < sampleRate audioBuffer"
      and "0 < chunkDurationSeconds"
      and "chunkDurationSeconds * sampleRate audioBuffer = real samplesPerChunk"
      and "samplesPerChunk < buf_length audioBuffer"
  shows "\<exists>chunks.
           splitAudioIntoChunks file chunkDurationSeconds = Some (Inr chunks) \<and>
           int samplesPerChunk = \<lfloor>chunkDurationSeconds * sampleRate audioBuffer\<rfloor> \<and>
           chunks \<noteq> [] \<and>
           fst (window (hd chunks)) = 0 \<and>
           snd (window (last chunks)) = real (buf_length audioBuffer) \<and>
           snd (window (last chunks)) - fst (window (last chunks)) \<le> real samplesPerChunk \<and>
           (\<forall>k < length chunks.
              fst (window (chunks ! k)) = real (k * samplesPerChunk) \<and>
              fst (window (chunks ! k)) < snd (window (chunks ! k)) \<and>
              index (chunks ! k) = k \<and>
              startTime (chunks ! k) = fst (window (chunks ! k)) / sampleRate audioBuffer \<and>
              endTime (chunks ! k) = snd (window (chunks ! k)) / sampleRate audioBuffer) \<and>
           (\<forall>k. Suc k < length chunks \<longrightarrow>
              snd (window (chunks ! k)) = fst (window (chunks ! Suc k)) \<and>
              snd (window (chunks ! k)) - fst (window (chunks ! k)) = real samplesPerChunk) \<and>
           (\<forall>j k. j < k \<and> k < length chunks \<longrightarrow>
              {fst (window (chunks ! j)) ..< snd (window (chunks ! j))}
              \<inter> {fst (window (chunks ! k)) ..< snd (window (chunks ! k))} = {}) \<and>
           (\<Union>c \<in> set chunks. {fst (window c) ..< snd (window c)})
             = {0 ..< real (buf_length audioBuffer)}"
proof -
  let ?rate = "sampleRate audioBuffer"
  let ?tot = "buf_length audioBuffer"
  define p where "p = real samplesPerChunk"
  define n where "n = nat \<lceil>real ?tot / p\<rceil>"
  define chunks where "chunks = map (plannedChunk p ?rate ?tot) [0 ..< n]"
  have prod: "chunkDurationSeconds * ?rate = p"
    using assms(4) by (simp add: p_def)
  have p: "0 < p"
    using assms(2,3) prod by (metis mult_pos_pos)
  have tot: "0 < ?tot"
    using assms(5) by simp
  have "p < real ?tot"
    using assms(5) by (simp add: p_def)
  then have "chunkDurationSeconds * ?rate < real ?tot"
    by (simp add: prod)
  then have longer: "chunkDurationSeconds < buf_duration audioBuffer"
    using assms(2) by (simp add: buf_duration_def pos_less_divide_eq)
  have split: "splitAudioIntoChunks file chunkDurationSeconds = Some (Inr chunks)"
    using splitAudioIntoChunks_plan [OF assms(1,2,3) longer]
    by (simp add: chunks_def n_def prod)
  have n: "0 < n" "real (n - 1) * p < real ?tot" "real ?tot \<le> real n * p"
    using chunk_count [OF p tot] by (simp_all add: n_def)
  have len: "length chunks = n"
    by (simp add: chunks_def)
  have nth: "chunks ! k = plannedChunk p ?rate ?tot k" if "k < n" for k
    using that by (simp add: chunks_def)
  have win: "window (chunks ! k) = (real k * p, min (real (Suc k) * p) (real ?tot))" if "k < n" for k
    using that by (simp add: nth window_plannedChunk)
  have below: "real k * p < real ?tot" if "k < n" for k
    using p that n(2) by (rule planned_start_below)
  have full: "min (real (Suc k) * p) (real ?tot) = real (Suc k) * p" if "Suc k < n" for k
    using p that n(2) by (rule planned_full)
  have nonempty: "chunks \<noteq> []"
    using n(1) len by auto
  have last_chunk: "last chunks = chunks ! (n - 1)" and hd_chunk: "hd chunks = chunks ! 0"
    using nonempty len by (simp_all add: last_conv_nth hd_conv_nth)
  have last_end: "min (real (Suc (n - 1)) * p) (real ?tot) = real ?tot"
    using n(1,3) by simp
  have floor: "int samplesPerChunk = \<lfloor>chunkDurationSeconds * ?rate\<rfloor>"
    by (simp add: assms(4))
  have first: "fst (window (hd chunks)) = 0"
    using n(1) by (simp add: hd_chunk win)
  have final: "snd (window (last chunks)) = real ?tot"
    using n(1) last_end by (simp add: last_chunk win)
  have final_len: "snd (window (last chunks)) - fst (window (last chunks)) \<le> real samplesPerChunk"
  proof -
    have "real ?tot - real (n - 1) * p \<le> real n * p - real (n - 1) * p"
      using n(3) by simp
    also have "\<dots> = p"
      using n(1) by (simp add: of_nat_diff algebra_simps)
    finally show ?thesis
      using n(1) last_end by (simp add: last_chunk win p_def)
  qed
  have each: "fst (window (chunks ! k)) = real (k * samplesPerChunk) \<and>
              fst (window (chunks ! k)) < snd (window (chunks ! k)) \<and>
              index (chunks ! k) = k \<and>
              startTime (chunks ! k) = fst (window (chunks ! k)) / ?rate \<and>
              endTime (chunks ! k) = snd (window (chunks ! k)) / ?rate" if "k < n" for k
  proof -
    have "real k * p < real (Suc k) * p"
      using p by (simp add: algebra_simps)
    then have "real k * p < min (real (Suc k) * p) (real ?tot)"
      using below [OF that] by simp
    moreover have "endTime (chunks ! k) = min (real (Suc k) * p) (real ?tot) / ?rate"
      by (simp add: nth [OF that] plannedChunk_def algebra_simps min_def)
    moreover have "startTime (chunks ! k) = real k * p / ?rate" "index (chunks ! k) = k"
      by (simp_all add: nth [OF that] plannedChunk_def)
    ultimately show ?thesis
      by (simp add: win [OF that] p_def)
  qed
  have contiguous: "snd (window (chunks ! k)) = fst (window (chunks ! Suc k)) \<and>
                    snd (window (chunks ! k)) - fst (window (chunks ! k)) = real samplesPerChunk"
    if "Suc k < n" for k
  proof -
    have k: "k < n"
      using that by simp
    have "snd (window (chunks ! k)) = real (Suc k) * p"
      by (simp only: win [OF k] full [OF that] snd_conv)
    moreover have "fst (window (chunks ! Suc k)) = real (Suc k) * p"
      by (simp only: win [OF that] fst_conv)
    moreover have "fst (window (chunks ! k)) = real k * p"
      by (simp only: win [OF k] fst_conv)
    ultimately show ?thesis
      by (simp add: p_def algebra_simps)
  qed
  have disjoint: "{fst (window (chunks ! j)) ..< snd (window (chunks ! j))}
                  \<inter> {fst (window (chunks ! k)) ..< snd (window (chunks ! k))} = {}"
    if "j < k" "k < n" for j k
  proof -
    have j: "j < n"
      using that by simp
    have "real (Suc j) \<le> real k"
      using that(1) by simp
    then have "real (Suc j) * p \<le> real k * p"
      using p by (simp only: mult_le_cancel_right_pos)
    then have "snd (window (chunks ! j)) \<le> fst (window (chunks ! k))"
      by (simp add: win [OF j] win [OF that(2)] min_le_iff_disj)
    then show ?thesis
      by auto
  qed
  have union: "(\<Union>c \<in> set chunks. {fst (window c) ..< snd (window c)}) = {0 ..< real ?tot}"
  proof -
    have "(\<Union>c \<in> set chunks. {fst (window c) ..< snd (window c)})
          = (\<Union>k \<in> {0 ..< n}. {real k * p ..< min (real (Suc k) * p) (real ?tot)})"
      by (simp add: chunks_def window_plannedChunk)
    also have "\<dots> = {0 ..< min (real n * p) (real ?tot)}"
      using p _ n(2) by (rule planned_union) simp
    also have "\<dots> = {0 ..< real ?tot}"
      using n(3) by simp
    finally show ?thesis .
  qed
  show ?thesis
    using split floor nonempty first final final_len each contiguous disjoint union
    unfolding len [symmetric]
    by blast
qed

subsection \<open>WAV encoder\<close>

lemma cat_bytes:
  fixes w :: "16 word"
  shows "word_cat (ucast (drop_bit 8 w) :: 8 word) (ucast w :: 8 word) = w"
  by (rule bit_word_eqI) (auto simp add: bit_word_cat_iff bit_ucast_iff bit_drop_bit_eq bit_simps)

lemma getInt16_setInt16: "getInt16 (setInt16 v) = sint (ToInt16 v)"
  by (simp add: getInt16_def setInt16_def Let_def cat_bytes)

lemma sint_ToInt16:
  assumes "- 32768 \<le> js_trunc v" "js_trunc v < 32768"
  shows "sint (ToInt16 v) = js_trunc v"
  using assms by (simp add: ToInt16_def sint_sbintrunc' signed_take_bit_int_eq_self)

lemma js_trunc_bounds:
  "\<bar>real_of_int (js_trunc x) - x\<bar> < 1" "\<bar>real_of_int (js_trunc x)\<bar> \<le> \<bar>x\<bar>"
  unfolding js_trunc_def by (simp_all, linarith+)

lemma intSample_range: "- 32767 \<le> intSample s" "intSample s \<le> 32767"
  by (simp_all add: intSample_def max_def min_def)

lemma js_trunc_range:
  assumes "- 32767 \<le> x" "x \<le> 32767"
  shows "- 32767 \<le> js_trunc x" "js_trunc x \<le> 32767"
  using assms unfolding js_trunc_def by (auto simp: le_floor_iff ceiling_le_iff; linarith)+

lemma getInt16_encodeSample: "getInt16 (encodeSample s) = js_trunc (intSample s)"
proof -
  have "- 32767 \<le> js_trunc (intSample s)" "js_trunc (intSample s) \<le> 32767"
    using js_trunc_range [OF intSample_range] by simp_all
  then have "sint (ToInt16 (intSample s)) = js_trunc (intSample s)"
    by (intro sint_ToInt16) simp_all
  then show ?thesis
    by (simp add: encodeSample_def getInt16_setInt16)
qed

lemma low_byte:
  fixes k :: int
  shows "(ucast (word_of_int k :: 16 word) :: 8 word) = word_of_int k"
  by (rule bit_word_eqI) (auto simp add: bit_simps)

lemma high_byte:
  fixes k :: int
  shows "(ucast (drop_bit 8 (word_of_int k :: 16 word)) :: 8 word) = word_of_int (k div 2 ^ 8)"
  unfolding drop_bit_eq_div [symmetric]
  by (rule bit_word_eqI) (auto simp add: bit_simps)

lemma encodeSample_bytes:
  "encodeSample s =
     [word_of_int (js_trunc (intSample s)), word_of_int (js_trunc (intSample s) div 2 ^ 8)]"
  by (simp only: encodeSample_def setInt16_def ToInt16_def Let_def low_byte high_byte)

text \<open>
  The file that \<^verbatim>\<open>audioBufferToWav\<close> builds is a header of 44 bytes followed by the
  samples, frame by frame and channel by channel, each encoded by \<open>encodeSample\<close>.
\<close>

lemma audioBufferToWav_data:
  "drop 44 (audioBufferToWav buffer) =
     concat (map (\<lambda>i. concat (map (\<lambda>channel. sampleBytes channel i) (channelData buffer)))
                 [0 ..< buf_length buffer])"
  by (simp add: audioBufferToWav_def setUint32_def setUint16_def writeString_def Let_def)

lemma sampleBytes_in_range:
  "i < length channel \<Longrightarrow> sampleBytes channel i = encodeSample (channel ! i)"
  by (simp add: sampleBytes_def)

lemma drop_concat_blocks:
  "\<forall>x \<in> set xss. length x = m \<Longrightarrow> k \<le> length xss \<Longrightarrow>
   drop (k * m) (concat xss) = concat (drop k xss)"
proof (induction xss arbitrary: k)
  case Nil
  then show ?case by simp
next
  case (Cons x xss)
  show ?case
  proof (cases k)
    case 0
    then show ?thesis by simp
  next
    case (Suc j)
    with Cons.prems have "drop (j * m) (concat xss) = concat (drop j xss)"
      by (intro Cons.IH) simp_all
    with Suc Cons.prems show ?thesis
      by simp
  qed
qed

lemma concat_drop_nth:
  "k < length xss \<Longrightarrow> concat (drop k xss) = xss ! k @ concat (drop (Suc k) xss)"
  by (simp add: Cons_nth_drop_Suc [symmetric])

lemma frame_bytes_length:
  "length (concat (map (\<lambda>channel. sampleBytes channel i) channels)) = 2 * length channels"
  by (induction channels) (simp_all add: sampleBytes_def encodeSample_def setInt16_def Let_def)

lemma audioBufferToWav_sample:
  assumes "frame < buf_length buffer" "ch < length (channelData buffer)"
  shows "take 2 (drop (44 + 2 * (frame * length (channelData buffer) + ch)) (audioBufferToWav buffer))
         = sampleBytes (channelData buffer ! ch) frame"
proof -
  let ?chans = "channelData buffer"
  let ?n = "length ?chans"
  let ?F = "\<lambda>i. concat (map (\<lambda>channel. sampleBytes channel i) ?chans)"
  let ?data = "concat (map ?F [0 ..< buf_length buffer])"
  have "drop (frame * (2 * ?n)) ?data = concat (drop frame (map ?F [0 ..< buf_length buffer]))"
    using assms(1) by (intro drop_concat_blocks) (auto simp: frame_bytes_length)
  also have "\<dots> = ?F frame @ concat (drop (Suc frame) (map ?F [0 ..< buf_length buffer]))"
    using assms(1) by (subst concat_drop_nth) simp_all
  finally have outer: "drop (frame * (2 * ?n)) ?data
      = ?F frame @ concat (drop (Suc frame) (map ?F [0 ..< buf_length buffer]))" .
  have "drop (ch * 2) (?F frame) = concat (drop ch (map (\<lambda>channel. sampleBytes channel frame) ?chans))"
    using assms(2) by (intro drop_concat_blocks) (auto simp: sampleBytes_def encodeSample_def setInt16_def Let_def)
  also have "\<dots> = sampleBytes (?chans ! ch) frame
                   @ concat (drop (Suc ch) (map (\<lambda>channel. sampleBytes channel frame) ?chans))"
    using assms(2) by (subst concat_drop_nth) simp_all
  finally have inner: "drop (ch * 2) (?F frame) = sampleBytes (?chans ! ch) frame
                   @ concat (drop (Suc ch) (map (\<lambda>channel. sampleBytes channel frame) ?chans))" .
  have two: "length (sampleBytes (?chans ! ch) frame) = 2"
    by (simp add: sampleBytes_def encodeSample_def setInt16_def Let_def)
  have "drop (44 + 2 * (frame * ?n + ch)) (audioBufferToWav buffer)
        = drop (ch * 2) (drop (frame * (2 * ?n)) (drop 44 (audioBufferToWav buffer)))"
    by (simp add: algebra_simps)
  also have "\<dots> = drop (ch * 2) (?F frame @ concat (drop (Suc frame) (map ?F [0 ..< buf_length buffer])))"
    by (simp only: audioBufferToWav_data outer)
  also have "\<dots> = drop (ch * 2) (?F frame) @ concat (drop (Suc frame) (map ?F [0 ..< buf_length buffer]))"
    using assms(2) by (simp add: frame_bytes_length)
  finally show ?thesis
    using two by (simp add: inner)
qed

text \<open>
  Claim C8 (as amended). The encoder clamps the sample to \<open>[-1, 1]\<close>, scales it by
  \<open>32767\<close> and truncates toward zero; the integer \<open>i\<close> that it writes stays within the
  signed 16-bit range, is written low byte first, and differs from the scaled clamped
  sample by less than \<open>1\<close>: in units of the encoder's own scale, the clamped sample and
  \<open>i / 32767\<close> differ by less than \<open>1 / 32767\<close>, and so do the sample itself and
  \<open>i / 32767\<close> when the sample lies in \<open>[-1, 1]\<close>. In the file that \<^verbatim>\<open>audioBufferToWav\<close>
  builds, these two bytes stand at offset \<open>44 + 2 * (frame * numberOfChannels + channel)\<close>.
  Nothing is said of what a decoder makes of the bytes.
\<close>

theorem encodeSample_quantises:
  "(let c = max (- 1) (min 1 sample); x = c * 32767; i = getInt16 (encodeSample sample)
    in (0 \<le> x \<longrightarrow> i = \<lfloor>x\<rfloor>) \<and> (x < 0 \<longrightarrow> i = \<lceil>x\<rceil>) \<and>
       - 32767 \<le> i \<and> i \<le> 32767 \<and>
       encodeSample sample = [word_of_int i, word_of_int (i div 2 ^ 8)] \<and>
       \<bar>x - real_of_int i\<bar> < 1 \<and>
       \<bar>c - real_of_int i / 32767\<bar> < 1 / 32767 \<and>
       (- 1 \<le> sample \<and> sample \<le> 1 \<longrightarrow> \<bar>sample - real_of_int i / 32767\<bar> < 1 / 32767)) \<and>
   (frame < buf_length buffer \<and> ch < length (channelData buffer) \<and>
    frame < length (channelData buffer ! ch) \<longrightarrow>
      take 2 (drop (44 + 2 * (frame * length (channelData buffer) + ch)) (audioBufferToWav buffer))
        = encodeSample (channelData buffer ! ch ! frame))"
proof -
  define c where "c = max (- 1) (min 1 sample)"
  define i where "i = js_trunc (c * 32767)"
  have x: "intSample sample = c * 32767"
    by (simp add: intSample_def c_def)
  have i: "getInt16 (encodeSample sample) = i"
    by (simp add: getInt16_encodeSample x i_def)
  have range: "- 32767 \<le> i" "i \<le> 32767"
    using js_trunc_range [OF intSample_range, of sample] by (simp_all add: x i_def)
  have "\<bar>real_of_int i - c * 32767\<bar> < 1"
    unfolding i_def by (rule js_trunc_bounds)
  then have step: "\<bar>c * 32767 - real_of_int i\<bar> < 1"
    by (simp add: abs_minus_commute)
  then have "\<bar>c * 32767 - real_of_int i\<bar> / 32767 < 1 / 32767"
    by simp
  moreover have "\<bar>c * 32767 - real_of_int i\<bar> / 32767 = \<bar>c - real_of_int i / 32767\<bar>"
    by (simp add: field_simps abs_if)
  ultimately have close: "\<bar>c - real_of_int i / 32767\<bar> < 1 / 32767"
    by simp
  have inside: "c = sample" if "- 1 \<le> sample \<and> sample \<le> 1"
    using that by (simp add: c_def)
  have trunc: "(0 \<le> c * 32767 \<longrightarrow> i = \<lfloor>c * 32767\<rfloor>) \<and> (c * 32767 < 0 \<longrightarrow> i = \<lceil>c * 32767\<rceil>)"
    by (simp add: i_def js_trunc_def)
  have bytes: "encodeSample sample = [word_of_int i, word_of_int (i div 2 ^ 8)]"
    by (simp add: encodeSample_bytes x i_def)
  have sample: "(let c = max (- 1) (min 1 sample); x = c * 32767; i = getInt16 (encodeSample sample)
    in (0 \<le> x \<longrightarrow> i = \<lfloor>x\<rfloor>) \<and> (x < 0 \<longrightarrow> i = \<lceil>x\<rceil>) \<and>
       - 32767 \<le> i \<and> i \<le> 32767 \<and>
       encodeSample sample = [word_of_int i, word_of_int (i div 2 ^ 8)] \<and>
       \<bar>x - real_of_int i\<bar> < 1 \<and>
       \<bar>c - real_of_int i / 32767\<bar> < 1 / 32767 \<and>
       (- 1 \<le> sample \<and> sample \<le> 1 \<longrightarrow> \<bar>sample - real_of_int i / 32767\<bar> < 1 / 32767))"
    unfolding Let_def c_def [symmetric] i
    using trunc range bytes step close inside by auto
  have placed: "take 2 (drop (44 + 2 * (frame * length (channelData buffer) + ch)) (audioBufferToWav buffer))
        = encodeSample (channelData buffer ! ch ! frame)"
    if "frame < buf_length buffer \<and> ch < length (channelData buffer) \<and>
        frame < length (channelData buffer ! ch)"
    using that audioBufferToWav_sample [of frame buffer ch] by (simp add: sampleBytes_def)
  show ?thesis
    using sample placed by blast
qed

theorem encodeSample_quantises_witness:
  "- 1 \<le> (1/2 :: real) \<and> (1/2 :: real) \<le> 1 \<and>
   getInt16 (encodeSample (1/2)) = 16383 \<and>
   encodeSample (1/2) = [255, 63] \<and>
   \<bar>1/2 - real_of_int (getInt16 (encodeSample (1/2))) / 32767\<bar> < 1 / 32767 \<and>
   getInt16 (encodeSample (- 1/2)) = - 16383 \<and>
   1 < buf_length stereo_buffer \<and> 0 < length (channelData stereo_buffer) \<and>
   1 < length (channelData stereo_buffer ! 0) \<and>
   channelData stereo_buffer ! 0 ! 1 = 1/2 \<and>
   take 2 (drop 48 (audioBufferToWav stereo_buffer)) = [255, 63]"
proof -
  have b: "1 < buf_length stereo_buffer" "0 < length (channelData stereo_buffer)"
          "1 < length (channelData stereo_buffer ! 0)" "channelData stereo_buffer ! 0 ! 1 = 1/2"
    by (simp_all add: stereo_buffer_def)
  have offset: "44 + 2 * (1 * length (channelData stereo_buffer) + 0) = 48"
    by (simp add: stereo_buffer_def)
  have low: "(word_of_int 16383 :: 8 word) = 255"
    by code_simp
  have high: "(word_of_int (16383 div 2 ^ 8) :: 8 word) = 63"
    by simp
  note at_half = encodeSample_quantises [of "1/2" 1 stereo_buffer 0, unfolded offset b(4) Let_def]
  from at_half have value_half: "getInt16 (encodeSample (1/2)) = 16383"
    by simp
  from at_half have close: "\<bar>1/2 - real_of_int (getInt16 (encodeSample (1/2))) / 32767\<bar> < 1 / 32767"
    by simp
  from at_half have "encodeSample (1/2) = [word_of_int (getInt16 (encodeSample (1/2))),
                                           word_of_int (getInt16 (encodeSample (1/2)) div 2 ^ 8)]"
    by blast
  then have bytes: "encodeSample (1/2) = [255, 63]"
    unfolding value_half low high .
  from at_half b have "take 2 (drop 48 (audioBufferToWav stereo_buffer)) = encodeSample (1/2)"
    by blast
  with bytes have placed: "take 2 (drop 48 (audioBufferToWav stereo_buffer)) = [255, 63]"
    by simp
  from encodeSample_quantises [of "- 1/2" 1 stereo_buffer 0]
  have neg: "getInt16 (encodeSample (- 1/2)) = - 16383"
    by (simp add: Let_def)
  from value_half close bytes placed neg b show ?thesis
    by simp
qed

text \<open>
  The round trip of claim C8 as stated, for every sample value, fails outside \<open>[-1, 1]\<close>
  whatever the decoder: the samples \<open>2\<close> and \<open>1\<close> are written as the same two bytes, so a
  decoder returns the same value for both, and no value is within \<open>1 / 32767\<close> of both
  \<open>2\<close> and \<open>1\<close>.
\<close>

theorem clamped_samples_collide_counterexample:
  "encodeSample 2 = encodeSample 1 \<and> getInt16 (encodeSample 2) = 32767 \<and>
   \<not> \<bar>(2::real) - 1\<bar> \<le> 2 * (1 / 32767)"
proof -
  have "intSample 2 = intSample 1"
    by (simp add: intSample_def)
  then have "encodeSample 2 = encodeSample 1"
    by (simp add: encodeSample_def)
  moreover have "getInt16 (encodeSample 2) = 32767"
    by (simp add: getInt16_encodeSample intSample_def js_trunc_def)
  ultimately show ?thesis
    by simp
qed

subsection \<open>Orchestrator loop\<close>

lemma chunk_filename_nonempty: "or_else (Some (c # s)) d = c # s"
  by (simp add: or_else_def)

lemma chunkCall_answered:
  "answered (net j) \<Longrightarrow>
   \<exists>l d. chunkCall net language ts chunks j =
     (SingleSuccess (answer_text (net j)) l d
        (reconcile (answer_segments (net j)) (startTime (chunks ! j))),
      [chunkUpload language ts chunks j])"
  by (cases "net j")
     (auto simp: chunkCall_def transcribeSingleAudio_def chunkUpload_def emit_def Let_def
                 chunk_filename_nonempty split: payload.splits)

lemma chunkCall_failed:
  "\<not> answered (net j) \<Longrightarrow>
   chunkCall net language ts chunks j =
     (SingleFailure (failure_message (net j)), [chunkUpload language ts chunks j])"
  by (cases "net j")
     (auto simp: chunkCall_def transcribeSingleAudio_def chunkUpload_def emit_def Let_def
                 chunk_filename_nonempty split: payload.splits)

lemma chunkLoop_done:
  "\<not> i < length chunks \<Longrightarrow>
   chunkLoop net language cb ts chunks i tr acc segs = (Completed tr acc segs, [])"
  by (subst chunkLoop.simps) simp

lemma chunkLoop_failed:
  "i < length chunks \<Longrightarrow> \<not> answered (net i) \<Longrightarrow>
   chunkLoop net language cb ts chunks i tr acc segs =
     (Aborted (PartialFailure
                 (''Failed to transcribe chunk '' @ show_nat (i + 1) @ '': '' @ failure_message (net i))
                 acc segs i (length chunks)),
      emit cb (chunkNote i (length chunks)) @ [chunkUpload language ts chunks i])"
  by (subst chunkLoop.simps) (simp add: chunkCall_failed)

lemma chunkLoop_answered:
  assumes "i < length chunks" "answered (net i)"
  shows "chunkLoop net language cb ts chunks i tr acc segs =
     (fst (chunkLoop net language cb ts chunks (Suc i) (tr @ [chunkSummary net chunks i])
             (appendText acc (answer_text (net i)))
             (segs @ reconcile (answer_segments (net i)) (startTime (chunks ! i)))),
      emit cb (chunkNote i (length chunks)) @ [chunkUpload language ts chunks i] @
      snd (chunkLoop net language cb ts chunks (Suc i) (tr @ [chunkSummary net chunks i])
             (appendText acc (answer_text (net i)))
             (segs @ reconcile (answer_segments (net i)) (startTime (chunks ! i)))))"
proof -
  from chunkCall_answered [where net = net and j = i, OF assms(2), of language ts chunks]
  obtain l d where call: "chunkCall net language ts chunks i =
     (SingleSuccess (answer_text (net i)) l d
        (reconcile (answer_segments (net i)) (startTime (chunks ! i))),
      [chunkUpload language ts chunks i])"
    by blast
  show ?thesis
    by (subst chunkLoop.simps) (simp add: assms(1) call chunkSummary_def case_prod_beta)
qed

lemma chunkLoop_prefix:
  assumes "i \<le> k" "k \<le> length chunks" "\<forall>j. i \<le> j \<and> j < k \<longrightarrow> answered (net j)"
  shows "chunkLoop net language cb ts chunks i tr acc segs =
     (fst (chunkLoop net language cb ts chunks k
             (tr @ map (chunkSummary net chunks) [i ..< k])
             (foldl appendText acc (map (\<lambda>j. answer_text (net j)) [i ..< k]))
             (segs @ concat (map (\<lambda>j. reconcile (answer_segments (net j)) (startTime (chunks ! j)))
                               [i ..< k]))),
      concat (map (\<lambda>j. emit cb (chunkNote j (length chunks)) @ [chunkUpload language ts chunks j])
                  [i ..< k]) @
      snd (chunkLoop net language cb ts chunks k
             (tr @ map (chunkSummary net chunks) [i ..< k])
             (foldl appendText acc (map (\<lambda>j. answer_text (net j)) [i ..< k]))
             (segs @ concat (map (\<lambda>j. reconcile (answer_segments (net j)) (startTime (chunks ! j)))
                               [i ..< k]))))"
  using assms
proof (induction k rule: dec_induct)
  case base
  show ?case by simp
next
  case (step k)
  then have k: "k < length chunks" "answered (net k)"
    by simp_all
  have "chunkLoop net language cb ts chunks i tr acc segs = (fst (chunkLoop net language cb ts chunks k
             (tr @ map (chunkSummary net chunks) [i ..< k])
             (foldl appendText acc (map (\<lambda>j. answer_text (net j)) [i ..< k]))
             (segs @ concat (map (\<lambda>j. reconcile (answer_segments (net j)) (startTime (chunks ! j)))
                               [i ..< k]))),
      concat (map (\<lambda>j. emit cb (chunkNote j (length chunks)) @ [chunkUpload language ts chunks j])
                  [i ..< k]) @
      snd (chunkLoop net language cb ts chunks k
             (tr @ map (chunkSummary net chunks) [i ..< k])
             (foldl appendText acc (map (\<lambda>j. answer_text (net j)) [i ..< k]))
             (segs @ concat (map (\<lambda>j. reconcile (answer_segments (net j)) (startTime (chunks ! j)))
                               [i ..< k]))))"
    using step by simp
  then show ?case
    using step.hyps(1) by (simp add: chunkLoop_answered [where net = net and i = k, OF k])
qed

lemma foldl_appendText_nonempty:
  "acc \<noteq> [] \<Longrightarrow> foldl appendText acc ts = acc @ concat (map (\<lambda>t. '' '' @ t) ts)"
  by (induction ts arbitrary: acc) (simp_all add: appendText_def)

lemma spaceJoined_Cons: "spaceJoined (t # ts) = t @ concat (map (\<lambda>t. '' '' @ t) ts)"
  by (induction ts arbitrary: t) simp_all

lemma appendText_spaceJoined:
  "ts = [] \<or> hd ts \<noteq> [] \<or> length ts = 1 \<Longrightarrow> foldl appendText [] ts = spaceJoined ts"
proof (cases ts)
  case Nil
  then show ?thesis by simp
next
  case (Cons t us)
  assume "ts = [] \<or> hd ts \<noteq> [] \<or> length ts = 1"
  with Cons consider "t \<noteq> []" | "us = []"
    by auto
  then show ?thesis
  proof cases
    case 1
    then show ?thesis
      using Cons foldl_appendText_nonempty [of t us]
      by (simp add: appendText_def spaceJoined_Cons)
  next
    case 2
    then show ?thesis
      using Cons by (simp add: appendText_def)
  qed
qed

lemma uploads_append: "uploads (es @ fs) = uploads es @ uploads fs"
  by (induction es rule: uploads.induct) simp_all

lemma uploads_emit: "uploads (emit cb p) = []"
  by (simp add: emit_def)

lemma uploads_chunk_events:
  "uploads (concat (map (\<lambda>j. emit cb (chunkNote j n) @ [chunkUpload language ts chunks j]) js))
     = map (chunkUpload language ts chunks) js"
  by (induction js) (simp_all add: uploads_append uploads_emit chunkUpload_def)

lemma uploads_chunkUpload:
  "uploads (chunkUpload language ts chunks j # es) = chunkUpload language ts chunks j # uploads es"
  by (simp add: chunkUpload_def)

lemma transcribeAudio_chunked:
  assumes "needsChunking (checkIfNeedsChunking file 25 300)"
      and "splitAudioIntoChunks file CHUNK_DURATION_SECONDS = Some (Inr chunks)"
  shows "transcribeAudio file net language cb ts =
     Some (case chunkLoop net language cb ts chunks 0 [] [] [] of
             (Aborted partial, trace) \<Rightarrow>
               (partial,
                emit cb (notice ''analyzing'' ''Analyzing audio file...'') @
                emit cb (notice ''chunking''
                           (''Splitting audio into ~''
                            @ show_int (estimatedChunks (checkIfNeedsChunking file 25 300))
                            @ '' chunks...'')) @
                emit cb ((notice ''transcribing''
                            (''Transcribing '' @ show_nat (length chunks) @ '' chunks...''))
                         \<lparr>p_totalChunks := Some (length chunks)\<rparr>) @
                trace)
           | (Completed transcriptions totalText allSegments, trace) \<Rightarrow>
               (ChunkedSuccess totalText allSegments transcriptions language
                  (cc_duration (checkIfNeedsChunking file 25 300)) True,
                emit cb (notice ''analyzing'' ''Analyzing audio file...'') @
                emit cb (notice ''chunking''
                           (''Splitting audio into ~''
                            @ show_int (estimatedChunks (checkIfNeedsChunking file 25 300))
                            @ '' chunks...'')) @
                emit cb ((notice ''transcribing''
                            (''Transcribing '' @ show_nat (length chunks) @ '' chunks...''))
                         \<lparr>p_totalChunks := Some (length chunks)\<rparr>) @
                trace @
                emit cb ((notice ''completed'' ''All chunks transcribed!'')
                         \<lparr>p_progress := Some 100\<rparr>)))"
  using assms
  by (simp add: transcribeAudio_def Let_def split: prod.splits loop_exit.splits)

subsection \<open>Runs of the orchestrator\<close>

lemma upt_3: "[0 ..< 3] = [0, 1, 2::nat]"
  by (simp add: upt_rec)

lemma long_file_needs_chunking: "needsChunking (checkIfNeedsChunking long_file 25 300)"
  by (simp add: checkIfNeedsChunking_def long_file_def Let_def)

lemma long_file_chunks:
  "splitAudioIntoChunks long_file CHUNK_DURATION_SECONDS = Some (Inr long_chunks)"
proof -
  have "decoded long_file = Inr long_buffer" "0 < sampleRate long_buffer"
       "0 < CHUNK_DURATION_SECONDS" "CHUNK_DURATION_SECONDS < buf_duration long_buffer"
    by (simp_all add: long_file_def long_buffer_def CHUNK_DURATION_SECONDS_def buf_duration_def)
  from splitAudioIntoChunks_plan [OF this] show ?thesis
    by (simp add: long_buffer_def CHUNK_DURATION_SECONDS_def long_chunks_def upt_3)
qed

theorem splitAudioIntoChunks_windows_witness:
  "decoded long_file = Inr long_buffer \<and> 0 < sampleRate long_buffer \<and> (0::real) < 300 \<and>
   300 * sampleRate long_buffer = real 2400000 \<and> 2400000 < buf_length long_buffer \<and>
   (\<exists>chunks. splitAudioIntoChunks long_file 300 = Some (Inr chunks) \<and>
      fst (window (hd chunks)) = 0 \<and> snd (window (last chunks)) = 5600000 \<and>
      (\<Union>c \<in> set chunks. {fst (window c) ..< snd (window c)}) = {0 ..< 5600000})"
proof -
  have h: "decoded long_file = Inr long_buffer" "0 < sampleRate long_buffer" "(0::real) < 300"
          "300 * sampleRate long_buffer = real 2400000" "2400000 < buf_length long_buffer"
    by (simp_all add: long_file_def long_buffer_def)
  from splitAudioIntoChunks_windows [OF h]
  obtain chunks where "splitAudioIntoChunks long_file 300 = Some (Inr chunks)"
      "fst (window (hd chunks)) = 0"
      "snd (window (last chunks)) = real (buf_length long_buffer)"
      "(\<Union>c \<in> set chunks. {fst (window c) ..< snd (window c)}) = {0 ..< real (buf_length long_buffer)}"
    by blast
  then have "\<exists>chunks. splitAudioIntoChunks long_file 300 = Some (Inr chunks) \<and>
      fst (window (hd chunks)) = 0 \<and> snd (window (last chunks)) = 5600000 \<and>
      (\<Union>c \<in> set chunks. {fst (window c) ..< snd (window c)}) = {0 ..< 5600000}"
    by (auto simp: long_buffer_def)
  with h show ?thesis
    by blast
qed

lemma half_not_integer: "11025 / 2 + real i \<noteq> real_of_int k"
proof
  assume "11025 / 2 + real i = real_of_int k"
  then have "real_of_int (11025 + 2 * int i) = real_of_int (2 * k)"
    by simp
  then have "11025 + 2 * int i = 2 * k"
    by (simp only: of_int_eq_iff)
  then show False
    by presburger
qed

lemma readSample_half: "readSample sourceData (11025 / 2 + real i) = None"
  using half_not_integer [of i "\<lfloor>11025 / 2 + real i\<rfloor>"] by (simp add: readSample_def)

lemma copyChannel_half:
  "copyChannel sourceData (11025 / 2) (11025 / 2) = replicate 5512 None"
  by (simp add: copyChannel_def readSample_half js_trunc_def map_replicate_const)

lemma readSample_integer:
  "s + i < length sourceData \<Longrightarrow> readSample sourceData (real s + real i) = Some (sourceData ! (s + i))"
proof -
  assume "s + i < length sourceData"
  moreover have "real s + real i = real (s + i)"
    by simp
  ultimately show ?thesis
    unfolding readSample_def by (simp only: floor_of_nat nat_int of_int_of_nat_eq of_nat_0_le_iff if_True simp_thms)
qed

lemma copyChannel_integer:
  assumes "0 \<le> chunkSamples" "s + nat \<lfloor>chunkSamples\<rfloor> \<le> length sourceData"
  shows "copyChannel sourceData (real s) chunkSamples
         = map Some (take (nat \<lfloor>chunkSamples\<rfloor>) (drop s sourceData))"
proof (rule nth_equalityI)
  show "length (copyChannel sourceData (real s) chunkSamples)
        = length (map Some (take (nat \<lfloor>chunkSamples\<rfloor>) (drop s sourceData)))"
    using assms by (simp add: copyChannel_def js_trunc_def)
next
  fix i
  assume "i < length (copyChannel sourceData (real s) chunkSamples)"
  then have i: "i < nat \<lfloor>chunkSamples\<rfloor>"
    using assms(1) by (simp add: copyChannel_def js_trunc_def)
  with assms(2) have "s + i < length sourceData"
    by simp
  then have "readSample sourceData (real s + real i) = Some (sourceData ! (s + i))"
    by (rule readSample_integer)
  with i assms show "copyChannel sourceData (real s) chunkSamples ! i
               = map Some (take (nat \<lfloor>chunkSamples\<rfloor>) (drop s sourceData)) ! i"
    by (simp add: copyChannel_def js_trunc_def)
qed

lemma half_second_copies:
  "copyChannel (replicate 12000 (1/2)) 0 (11025 / 2) = replicate 5512 (Some (1/2))"
  "copyChannel (replicate 12000 (1/2)) 11025 975 = replicate 975 (Some (1/2))"
proof -
  have "copyChannel (replicate 12000 (1/2)) (real 0) (11025 / 2)
        = map Some (take (nat \<lfloor>11025 / 2 :: real\<rfloor>) (drop 0 (replicate 12000 (1/2))))"
    by (rule copyChannel_integer) simp_all
  then show "copyChannel (replicate 12000 (1/2)) 0 (11025 / 2) = replicate 5512 (Some (1/2))"
    by simp
  have "copyChannel (replicate 12000 (1/2)) (real 11025) 975
        = map Some (take (nat \<lfloor>975 :: real\<rfloor>) (drop 11025 (replicate 12000 (1/2))))"
    by (rule copyChannel_integer) simp_all
  then show "copyChannel (replicate 12000 (1/2)) 11025 975 = replicate 975 (Some (1/2))"
    by simp
qed

text \<open>
  Claim C1. \<open>samplesPerChunk\<close> is the product \<open>chunkDurationSeconds * sampleRate\<close> itself,
  not its floor. With half a second at 11025 Hz and 12000 frames, all of value \<open>1/2\<close>,
  the product is \<open>5512.5\<close> and its floor \<open>5512\<close>; the windows are \<open>[0, 5512.5)\<close>,
  \<open>[5512.5, 11025)\<close> and \<open>[11025, 12000)\<close>, so that the first two boundaries are not
  integers, let alone multiples of \<open>5512\<close>. The copy loop then fails at what its comment
  announces: the first chunk buffer holds the frames \<open>0\<close> to \<open>5511\<close>, the second reads the
  source at \<open>5512.5 + i\<close> only and holds 5512 frames of \<open>NaN\<close>, which are written to the
  file as silence, and the third holds the frames from \<open>11025\<close> on. The frames \<open>5512\<close> to
  \<open>11024\<close> of the source reach no chunk.
\<close>

theorem unfloored_samplesPerChunk_failing_input:
  "map_option (map_sum id (map blob)) (splitAudioIntoChunks half_second_file (1/2))
     = Some (Inr [WavChunk 0 (11025/2), WavChunk (11025/2) (11025/2), WavChunk 11025 975]) \<and>
   map_option (map_sum id (map window)) (splitAudioIntoChunks half_second_file (1/2))
     = Some (Inr [(0, 11025/2), (11025/2, 11025), (11025, 12000)]) \<and>
   \<lfloor>(1/2) * sampleRate half_second_buffer\<rfloor> = 5512 \<and>
   channelData half_second_buffer = [replicate 12000 (1/2)] \<and>
   chunkBufferData half_second_buffer (WavChunk 0 (11025/2)) = [replicate 5512 (Some (1/2))] \<and>
   chunkBufferData half_second_buffer (WavChunk (11025/2) (11025/2)) = [replicate 5512 None] \<and>
   chunkBufferData half_second_buffer (WavChunk 11025 975) = [replicate 975 (Some (1/2))] \<and>
   map (map copiedSampleBytes) (chunkBufferData half_second_buffer (WavChunk (11025/2) (11025/2)))
     = [replicate 5512 [0, 0]]"
proof -
  have "decoded half_second_file = Inr half_second_buffer" "0 < sampleRate half_second_buffer"
       "(0::real) < 1/2" "1/2 < buf_duration half_second_buffer"
    by (simp_all add: half_second_file_def half_second_buffer_def buf_duration_def)
  from splitAudioIntoChunks_plan [OF this]
  have "splitAudioIntoChunks half_second_file (1/2)
        = Some (Inr (map (plannedChunk (11025/2) 11025 12000) [0, 1, 2]))"
    by (simp add: half_second_buffer_def upt_3)
  then have plan:
    "map_option (map_sum id (map blob)) (splitAudioIntoChunks half_second_file (1/2))
       = Some (Inr [WavChunk 0 (11025/2), WavChunk (11025/2) (11025/2), WavChunk 11025 975])"
    "map_option (map_sum id (map window)) (splitAudioIntoChunks half_second_file (1/2))
       = Some (Inr [(0, 11025/2), (11025/2, 11025), (11025, 12000)])"
    by (simp_all add: plannedChunk_def window_def)
  have copies:
    "chunkBufferData half_second_buffer (WavChunk 0 (11025/2)) = [replicate 5512 (Some (1/2))]"
    "chunkBufferData half_second_buffer (WavChunk (11025/2) (11025/2)) = [replicate 5512 None]"
    "chunkBufferData half_second_buffer (WavChunk 11025 975) = [replicate 975 (Some (1/2))]"
    by (simp_all add: chunkBufferData_def half_second_buffer_def copyChannel_half half_second_copies)
  have "map (map copiedSampleBytes) [replicate 5512 (None :: real option)] = [replicate 5512 [0, 0]]"
    by (simp add: copiedSampleBytes_def)
  with plan copies show ?thesis
    by (simp add: half_second_buffer_def)
qed

lemma chunkLoop_aborts:
  assumes "i < length chunks" "\<forall>j<i. answered (net j)" "\<not> answered (net i)"
  shows "chunkLoop net language cb ts chunks 0 [] [] [] =
     (Aborted (PartialFailure
                 (''Failed to transcribe chunk '' @ show_nat (i + 1) @ '': '' @ failure_message (net i))
                 (foldl appendText [] (map (\<lambda>j. answer_text (net j)) [0 ..< i]))
                 (concat (map (\<lambda>j. reconcile (answer_segments (net j)) (startTime (chunks ! j)))
                              [0 ..< i]))
                 i (length chunks)),
      concat (map (\<lambda>j. emit cb (chunkNote j (length chunks)) @ [chunkUpload language ts chunks j])
                  [0 ..< i]) @
      emit cb (chunkNote i (length chunks)) @ [chunkUpload language ts chunks i])"
proof -
  have prefix: "\<forall>j. 0 \<le> j \<and> j < i \<longrightarrow> answered (net j)"
    using assms(2) by simp
  show ?thesis
    using assms(1)
    by (subst chunkLoop_prefix [where k = i and net = net, OF _ _ prefix])
       (simp_all add: chunkLoop_failed [where net = net, OF assms(1) assms(3)])
qed

lemma chunkLoop_completes:
  assumes "\<forall>j < length chunks. answered (net j)"
  shows "chunkLoop net language cb ts chunks 0 [] [] [] =
     (Completed (map (chunkSummary net chunks) [0 ..< length chunks])
        (foldl appendText [] (map (\<lambda>j. answer_text (net j)) [0 ..< length chunks]))
        (concat (map (\<lambda>j. reconcile (answer_segments (net j)) (startTime (chunks ! j)))
                     [0 ..< length chunks])),
      concat (map (\<lambda>j. emit cb (chunkNote j (length chunks)) @ [chunkUpload language ts chunks j])
                  [0 ..< length chunks]))"
proof -
  have prefix: "\<forall>j. 0 \<le> j \<and> j < length chunks \<longrightarrow> answered (net j)"
    using assms by simp
  show ?thesis
    by (subst chunkLoop_prefix [where k = "length chunks" and net = net, OF _ _ prefix])
       (simp_all add: chunkLoop_done)
qed

lemma transcribeAudio_aborts:
  assumes "needsChunking (checkIfNeedsChunking file 25 300)"
      and "splitAudioIntoChunks file CHUNK_DURATION_SECONDS = Some (Inr chunks)"
      and "i < length chunks" "\<forall>j<i. answered (net j)" "\<not> answered (net i)"
  shows "\<exists>trace.
           transcribeAudio file net language cb ts =
             Some (PartialFailure
                     (''Failed to transcribe chunk '' @ show_nat (i + 1) @ '': ''
                      @ failure_message (net i))
                     (foldl appendText [] (map (\<lambda>j. answer_text (net j)) [0 ..< i]))
                     (concat (map (\<lambda>j. reconcile (answer_segments (net j)) (startTime (chunks ! j)))
                                  [0 ..< i]))
                     i (length chunks),
                   trace) \<and>
           uploads trace = map (chunkUpload language ts chunks) [0 ..< Suc i]"
  by (simp add: transcribeAudio_chunked [OF assms(1,2)] chunkLoop_aborts [OF assms(3,4,5)]
                uploads_append uploads_emit uploads_chunk_events uploads_chunkUpload)

lemma transcribeAudio_completes:
  assumes "needsChunking (checkIfNeedsChunking file 25 300)"
      and "splitAudioIntoChunks file CHUNK_DURATION_SECONDS = Some (Inr chunks)"
      and "\<forall>j < length chunks. answered (net j)"
  shows "transcribeAudio file net language cb ts =
     Some (ChunkedSuccess
             (foldl appendText [] (map (\<lambda>j. answer_text (net j)) [0 ..< length chunks]))
             (concat (map (\<lambda>j. reconcile (answer_segments (net j)) (startTime (chunks ! j)))
                          [0 ..< length chunks]))
             (map (chunkSummary net chunks) [0 ..< length chunks])
             language (cc_duration (checkIfNeedsChunking file 25 300)) True,
           emit cb (notice ''analyzing'' ''Analyzing audio file...'') @
           emit cb (notice ''chunking''
                      (''Splitting audio into ~''
                       @ show_int (estimatedChunks (checkIfNeedsChunking file 25 300))
                       @ '' chunks...'')) @
           emit cb ((notice ''transcribing''
                       (''Transcribing '' @ show_nat (length chunks) @ '' chunks...''))
                    \<lparr>p_totalChunks := Some (length chunks)\<rparr>) @
           concat (map (\<lambda>j. emit cb (chunkNote j (length chunks)) @ [chunkUpload language ts chunks j])
                       [0 ..< length chunks]) @
           emit cb ((notice ''completed'' ''All chunks transcribed!'')\<lparr>p_progress := Some 100\<rparr>))"
  by (simp add: transcribeAudio_chunked [OF assms(1,2)] chunkLoop_completes [OF assms(3)])

text \<open>
  Claim C2 (as amended). When the chunk at \<open>i\<close> is the first whose call fails, the
  orchestrator sends requests for the chunks \<open>0..i\<close> only and returns the partial
  failure with \<open>completedChunks = i\<close>, \<open>totalChunks\<close> the number of chunks, the
  reconciled segments of the chunks before \<open>i\<close>, an error message naming chunk
  \<open>i + 1\<close>, and as \<open>partialText\<close> the texts of the chunks before \<open>i\<close> accumulated in
  order, a space being inserted only when the text so far is not empty. This is the
  space-joined text when the first text is not empty or at most one chunk completed; when
  chunk 2 fails it is the text of chunk 1.
\<close>

theorem transcribeAudio_partial_failure:
  assumes "needsChunking (checkIfNeedsChunking file 25 300)"
      and "splitAudioIntoChunks file CHUNK_DURATION_SECONDS = Some (Inr chunks)"
      and "i < length chunks"
      and "\<forall>j<i. answered (net j)"
      and "\<not> answered (net i)"
  shows "(\<exists>trace.
           transcribeAudio file net language onProgress includeTimestamps =
             Some (PartialFailure
                     (''Failed to transcribe chunk '' @ show_nat (i + 1) @ '': ''
                      @ failure_message (net i))
                     (foldl appendText [] (map (\<lambda>j. answer_text (net j)) [0 ..< i]))
                     (concat (map (\<lambda>j. reconcile (answer_segments (net j)) (startTime (chunks ! j)))
                                  [0 ..< i]))
                     i (length chunks),
                   trace) \<and>
           uploads trace = map (chunkUpload language includeTimestamps chunks) [0 ..< Suc i]) \<and>
         (i \<le> 1 \<or> answer_text (net 0) \<noteq> [] \<longrightarrow>
            foldl appendText [] (map (\<lambda>j. answer_text (net j)) [0 ..< i])
              = spaceJoined (map (\<lambda>j. answer_text (net j)) [0 ..< i])) \<and>
         (i = 1 \<longrightarrow> foldl appendText [] (map (\<lambda>j. answer_text (net j)) [0 ..< i]) = answer_text (net 0))"
proof -
  have texts: "map (\<lambda>j. answer_text (net j)) [0 ..< i] = [] \<or>
               hd (map (\<lambda>j. answer_text (net j)) [0 ..< i]) \<noteq> [] \<or>
               length (map (\<lambda>j. answer_text (net j)) [0 ..< i]) = 1"
    if "i \<le> 1 \<or> answer_text (net 0) \<noteq> []"
  proof (cases "i = 0")
    case True
    then show ?thesis by simp
  next
    case False
    then have "hd (map (\<lambda>j. answer_text (net j)) [0 ..< i]) = answer_text (net 0)"
      by (simp add: hd_map upt_conv_Cons)
    with that False show ?thesis
      by auto
  qed
  have one: "foldl appendText [] (map (\<lambda>j. answer_text (net j)) [0 ..< i]) = answer_text (net 0)"
    if "i = 1"
    using that by (simp add: appendText_def)
  show ?thesis
    using appendText_spaceJoined [OF texts] one transcribeAudio_aborts [OF assms]
    by blast
qed

lemma long_chunks_facts:
  "length long_chunks = 3"
  "startTime (long_chunks ! 0) = 0" "startTime (long_chunks ! Suc 0) = 300"
  "startTime (long_chunks ! 2) = 600"
  "blob (long_chunks ! 0) = WavChunk 0 2400000"
  "blob (long_chunks ! Suc 0) = WavChunk 2400000 2400000"
  "blob (long_chunks ! 2) = WavChunk 4800000 800000"
  by (simp_all add: long_chunks_def plannedChunk_def)

lemma show_nat_small:
  "show_nat (Suc 0) = ''1''" "show_nat (Suc (Suc 0)) = ''2''" "show_nat 2 = ''2''"
  "show_nat 3 = ''3''"
  by (simp_all add: show_nat.simps digit_char_def)

lemma upt_2: "[0 ..< 2] = [0, 1::nat]"
  by (simp add: upt_rec)

theorem transcribeAudio_partial_failure_witness:
  "needsChunking (checkIfNeedsChunking long_file 25 300) \<and>
   splitAudioIntoChunks long_file CHUNK_DURATION_SECONDS = Some (Inr long_chunks) \<and>
   2 < length long_chunks \<and> answered (drops_third 0) \<and> answered (drops_third 1) \<and>
   \<not> answered (drops_third 2) \<and>
   (\<exists>trace.
      transcribeAudio long_file drops_third ''en'' True True =
        Some (PartialFailure ''Failed to transcribe chunk 3: Failed to fetch'' ''hello world''
                [hello_segment, world_segment] 2 3, trace) \<and>
      uploads trace = [Upload (WavChunk 0 2400000) (Some ''chunk-1.wav'') ''en'' True,
                       Upload (WavChunk 2400000 2400000) (Some ''chunk-2.wav'') ''en'' True,
                       Upload (WavChunk 4800000 800000) (Some ''chunk-3.wav'') ''en'' True]) \<and>
   answered (drops_second 0) \<and> \<not> answered (drops_second 1) \<and>
   (\<exists>trace.
      transcribeAudio long_file drops_second ''en'' True True =
        Some (PartialFailure ''Failed to transcribe chunk 2: Failed to fetch'' ''hello''
                [hello_segment] 1 3, trace) \<and>
      uploads trace = [Upload (WavChunk 0 2400000) (Some ''chunk-1.wav'') ''en'' True,
                       Upload (WavChunk 2400000 2400000) (Some ''chunk-2.wav'') ''en'' True])"
proof -
  have h: "2 < length long_chunks" "\<forall>j<2. answered (drops_third j)" "\<not> answered (drops_third 2)"
    by (simp_all add: long_chunks_facts drops_third_def heard_def)
  have texts: "answer_text (drops_third 0) = ''hello''" "answer_text (drops_third (Suc 0)) = ''world''"
    "answer_segments (drops_third 0) = [hello_segment]"
    "answer_segments (drops_third (Suc 0)) = [\<lparr>seg_id = 0, seg_start = 0, seg_end = 2, seg_text = ''world''\<rparr>]"
    "failure_message (drops_third 2) = ''Failed to fetch''"
    by (simp_all add: drops_third_def heard_def hello_segment_def)
  from transcribeAudio_partial_failure [OF long_file_needs_chunking long_file_chunks h,
         of "''en''" True True]
  have third: "\<exists>trace.
      transcribeAudio long_file drops_third ''en'' True True =
        Some (PartialFailure ''Failed to transcribe chunk 3: Failed to fetch'' ''hello world''
                [hello_segment, world_segment] 2 3, trace) \<and>
      uploads trace = [Upload (WavChunk 0 2400000) (Some ''chunk-1.wav'') ''en'' True,
                       Upload (WavChunk 2400000 2400000) (Some ''chunk-2.wav'') ''en'' True,
                       Upload (WavChunk 4800000 800000) (Some ''chunk-3.wav'') ''en'' True]"
    by (simp add: upt_2 upt_3 texts long_chunks_facts show_nat_small appendText_def
                  reconcile_def chunkUpload_def world_segment_def hello_segment_def)
  have a: "answered (drops_third 0)" "answered (drops_third 1)"
    by (simp_all add: drops_third_def heard_def)
  have g: "1 < length long_chunks" "\<forall>j<1. answered (drops_second j)" "\<not> answered (drops_second 1)"
    by (simp_all add: long_chunks_facts drops_second_def heard_def)
  have texts2: "answer_text (drops_second 0) = ''hello''"
    "answer_segments (drops_second 0) = [hello_segment]"
    "failure_message (drops_second (Suc 0)) = ''Failed to fetch''"
    by (simp_all add: drops_second_def heard_def hello_segment_def)
  from transcribeAudio_partial_failure [OF long_file_needs_chunking long_file_chunks g,
         of "''en''" True True]
  have second: "\<exists>trace.
      transcribeAudio long_file drops_second ''en'' True True =
        Some (PartialFailure ''Failed to transcribe chunk 2: Failed to fetch'' ''hello''
                [hello_segment] 1 3, trace) \<and>
      uploads trace = [Upload (WavChunk 0 2400000) (Some ''chunk-1.wav'') ''en'' True,
                       Upload (WavChunk 2400000 2400000) (Some ''chunk-2.wav'') ''en'' True]"
    by (simp add: upt_2 texts2 long_chunks_facts show_nat_small appendText_def
                  reconcile_def chunkUpload_def hello_segment_def)
  have b: "answered (drops_second 0)" "\<not> answered (drops_second 1)"
    by (simp_all add: drops_second_def heard_def)
  from long_file_needs_chunking long_file_chunks h(1,3) a third b second show ?thesis
    by blast
qed

text \<open>
  Claim C2 as stated fails when a leading chunk has no text: no space is inserted after
  an empty accumulated text, so the partial text is \<open>b\<close> where the space-joined texts
  are \<open>" b"\<close>.
\<close>

theorem leading_empty_text_counterexample:
  "map_option fst (transcribeAudio long_file silent_start ''en'' True True) =
     Some (PartialFailure ''Failed to transcribe chunk 3: Failed to fetch'' ''b''
             [\<lparr>seg_id = 0, seg_start = 300, seg_end = 302, seg_text = ''b''\<rparr>] 2 3) \<and>
   spaceJoined [answer_text (silent_start 0), answer_text (silent_start 1)] = '' b''"
proof -
  have h: "2 < length long_chunks" "\<forall>j<2. answered (silent_start j)" "\<not> answered (silent_start 2)"
    by (simp_all add: long_chunks_facts silent_start_def heard_def silence_def)
  have texts: "answer_text (silent_start 0) = []" "answer_text (silent_start (Suc 0)) = ''b''"
    "answer_segments (silent_start 0) = []"
    "answer_segments (silent_start (Suc 0)) = [\<lparr>seg_id = 0, seg_start = 0, seg_end = 2, seg_text = ''b''\<rparr>]"
    "failure_message (silent_start 2) = ''Failed to fetch''"
    by (simp_all add: silent_start_def heard_def silence_def)
  from transcribeAudio_aborts [OF long_file_needs_chunking long_file_chunks h, of "''en''" True True]
  show ?thesis
    by (auto simp: upt_2 texts long_chunks_facts show_nat_small appendText_def reconcile_def)
qed

lemma chunkLoop_announces:
  assumes "i < length chunks"
  shows "\<exists>events. snd (chunkLoop net language cb ts chunks i tr acc segs) =
           emit cb (chunkNote i (length chunks)) @ [chunkUpload language ts chunks i] @ events"
proof (cases "answered (net i)")
  case True
  show ?thesis
    by (subst chunkLoop_answered [where net = net, OF assms True]) simp
next
  case False
  show ?thesis
    by (subst chunkLoop_failed [where net = net, OF assms False]) simp
qed

text \<open>
  Claim C7 (as amended). In a chunked run with a progress callback, the orchestrator emits
  before the request of each chunk \<open>i\<close> (0-based) that it attempts a notification carrying
  \<open>currentChunk = i + 1\<close>, \<open>totalChunks = n\<close> and \<open>progress = i / n * 100\<close>, the percentage
  of chunks completed so far; after the last chunk it emits one notification with progress
  \<open>100\<close> and neither index nor total. In the statement \<open>k\<close> is any number of leading
  chunks whose calls succeed: each of them, and the chunk after them when there is one,
  is announced before it is requested.
\<close>

theorem transcribeAudio_progress_notifications:
  assumes "needsChunking (checkIfNeedsChunking file 25 300)"
      and "splitAudioIntoChunks file CHUNK_DURATION_SECONDS = Some (Inr chunks)"
      and "k \<le> length chunks"
      and "\<forall>j < k. answered (net j)"
  shows "(\<exists>result before rest.
           transcribeAudio file net language True includeTimestamps =
             Some (result,
                   before @
                   concat (map (\<lambda>i. [Progress (chunkNote i (length chunks)),
                                      chunkUpload language includeTimestamps chunks i])
                               [0 ..< k]) @
                   rest) \<and>
           uploads before = [] \<and>
           (k < length chunks \<longrightarrow>
              (\<exists>events. rest = [Progress (chunkNote k (length chunks)),
                                  chunkUpload language includeTimestamps chunks k] @ events)) \<and>
           (k = length chunks \<longrightarrow>
              rest = [Progress ((notice ''completed'' ''All chunks transcribed!'')
                                \<lparr>p_progress := Some 100\<rparr>)])) \<and>
         (\<forall>i. p_currentChunk (chunkNote i (length chunks)) = Some (i + 1) \<and>
              p_totalChunks (chunkNote i (length chunks)) = Some (length chunks) \<and>
              p_progress (chunkNote i (length chunks)) = Some (real i / real (length chunks) * 100)) \<and>
         p_currentChunk ((notice ''completed'' ''All chunks transcribed!'')\<lparr>p_progress := Some 100\<rparr>) = None \<and>
         p_totalChunks ((notice ''completed'' ''All chunks transcribed!'')\<lparr>p_progress := Some 100\<rparr>) = None"
proof -
  let ?before = "[Progress (notice ''analyzing'' ''Analyzing audio file...''),
                  Progress (notice ''chunking''
                      (''Splitting audio into ~''
                       @ show_int (estimatedChunks (checkIfNeedsChunking file 25 300))
                       @ '' chunks...'')),
                  Progress ((notice ''transcribing''
                       (''Transcribing '' @ show_nat (length chunks) @ '' chunks...''))
                    \<lparr>p_totalChunks := Some (length chunks)\<rparr>)]"
  let ?steps = "concat (map (\<lambda>i. [Progress (chunkNote i (length chunks)),
                                      chunkUpload language includeTimestamps chunks i])
                               [0 ..< k])"
  let ?done = "[Progress ((notice ''completed'' ''All chunks transcribed!'')\<lparr>p_progress := Some 100\<rparr>)]"
  have prefix: "\<forall>j. 0 \<le> j \<and> j < k \<longrightarrow> answered (net j)"
    using assms(4) by simp
  define tr where "tr = [] @ map (chunkSummary net chunks) [0 ..< k]"
  define acc where "acc = foldl appendText [] (map (\<lambda>j. answer_text (net j)) [0 ..< k])"
  define segs where "segs = [] @ concat (map (\<lambda>j. reconcile (answer_segments (net j)) (startTime (chunks ! j))) [0 ..< k])"
  define exit where "exit = fst (chunkLoop net language True includeTimestamps chunks k tr acc segs)"
  define tail where "tail = snd (chunkLoop net language True includeTimestamps chunks k tr acc segs)"
  have loop: "chunkLoop net language True includeTimestamps chunks 0 [] [] [] = (exit, ?steps @ tail)"
    unfolding exit_def tail_def tr_def acc_def segs_def
    by (subst chunkLoop_prefix [where k = k and net = net, OF _ assms(3) prefix])
       (simp_all add: emit_def)
  have complete: "tail = [] \<and> (\<exists>a b c. exit = Completed a b c)" if "k = length chunks"
    using that by (simp add: exit_def tail_def chunkLoop_done)
  have attempted: "\<exists>events. tail = [Progress (chunkNote k (length chunks)),
                                       chunkUpload language includeTimestamps chunks k] @ events"
    if "k < length chunks"
    using chunkLoop_announces [OF that, of net language True includeTimestamps tr acc segs]
    by (simp add: tail_def emit_def)
  have before: "uploads ?before = []"
    by simp
  have "\<exists>result rest.
          transcribeAudio file net language True includeTimestamps
            = Some (result, ?before @ ?steps @ rest) \<and>
          (k < length chunks \<longrightarrow>
              (\<exists>events. rest = [Progress (chunkNote k (length chunks)),
                                  chunkUpload language includeTimestamps chunks k] @ events)) \<and>
          (k = length chunks \<longrightarrow> rest = ?done)"
  proof (cases exit)
    case (Aborted partial)
    with complete have "k \<noteq> length chunks"
      by auto
    with Aborted loop attempted show ?thesis
      by (simp add: transcribeAudio_chunked [OF assms(1,2)] emit_def)
  next
    case (Completed a b c)
    show ?thesis
    proof (cases "k = length chunks")
      case True
      with Completed loop complete show ?thesis
        by (simp add: transcribeAudio_chunked [OF assms(1,2)] emit_def)
    next
      case False
      with assms(3) have "k < length chunks"
        by simp
      from attempted [OF this] obtain events where
        "tail = [Progress (chunkNote k (length chunks)),
                 chunkUpload language includeTimestamps chunks k] @ events"
        by blast
      with Completed loop False show ?thesis
        by (simp add: transcribeAudio_chunked [OF assms(1,2)] emit_def)
    qed
  qed
  with before have run: "\<exists>result before rest.
           transcribeAudio file net language True includeTimestamps =
             Some (result, before @ ?steps @ rest) \<and>
           uploads before = [] \<and>
           (k < length chunks \<longrightarrow>
              (\<exists>events. rest = [Progress (chunkNote k (length chunks)),
                                  chunkUpload language includeTimestamps chunks k] @ events)) \<and>
           (k = length chunks \<longrightarrow> rest = ?done)"
    by blast
  show ?thesis
    using run by (simp add: chunkNote_def notice_def)
qed

lemma always_answers_long: "\<forall>j < length long_chunks. answered (always_answers j)"
  by (simp add: always_answers_def heard_def)

theorem transcribeAudio_progress_notifications_witness:
  "needsChunking (checkIfNeedsChunking long_file 25 300) \<and>
   splitAudioIntoChunks long_file CHUNK_DURATION_SECONDS = Some (Inr long_chunks) \<and>
   length long_chunks = 3 \<and>
   answered (always_answers 0) \<and> answered (always_answers 1) \<and> answered (always_answers 2) \<and>
   (\<exists>result before.
      transcribeAudio long_file always_answers ''en'' True True =
        Some (result,
              before @
              [Progress (chunkNote 0 3), Upload (WavChunk 0 2400000) (Some ''chunk-1.wav'') ''en'' True,
               Progress (chunkNote 1 3), Upload (WavChunk 2400000 2400000) (Some ''chunk-2.wav'') ''en'' True,
               Progress (chunkNote 2 3), Upload (WavChunk 4800000 800000) (Some ''chunk-3.wav'') ''en'' True,
               Progress ((notice ''completed'' ''All chunks transcribed!'')\<lparr>p_progress := Some 100\<rparr>)]) \<and>
      uploads before = []) \<and>
   p_progress (chunkNote 1 3) = Some (100 / 3) \<and> p_currentChunk (chunkNote 1 3) = Some 2 \<and>
   answered (drops_second 0) \<and>
   (\<exists>result before events.
      transcribeAudio long_file drops_second ''en'' True True =
        Some (result,
              before @
              [Progress (chunkNote 0 3), Upload (WavChunk 0 2400000) (Some ''chunk-1.wav'') ''en'' True,
               Progress (chunkNote 1 3), Upload (WavChunk 2400000 2400000) (Some ''chunk-2.wav'') ''en'' True]
              @ events) \<and>
      uploads before = [])"
proof -
  have k: "3 \<le> length long_chunks" "\<forall>j < 3. answered (always_answers j)"
    by (simp_all add: long_chunks_facts always_answers_def heard_def)
  from transcribeAudio_progress_notifications
         [OF long_file_needs_chunking long_file_chunks k, of "''en''" True]
  have complete: "(\<exists>result before.
      transcribeAudio long_file always_answers ''en'' True True =
        Some (result,
              before @
              [Progress (chunkNote 0 3), Upload (WavChunk 0 2400000) (Some ''chunk-1.wav'') ''en'' True,
               Progress (chunkNote 1 3), Upload (WavChunk 2400000 2400000) (Some ''chunk-2.wav'') ''en'' True,
               Progress (chunkNote 2 3), Upload (WavChunk 4800000 800000) (Some ''chunk-3.wav'') ''en'' True,
               Progress ((notice ''completed'' ''All chunks transcribed!'')\<lparr>p_progress := Some 100\<rparr>)]) \<and>
      uploads before = []) \<and>
     p_progress (chunkNote 1 3) = Some (100 / 3) \<and> p_currentChunk (chunkNote 1 3) = Some 2"
    by (simp add: long_chunks_facts upt_3 chunkUpload_def show_nat_small)
  have a: "answered (always_answers 0)" "answered (always_answers 1)"
    "answered (always_answers 2)"
    by (simp_all add: always_answers_def heard_def)
  have j: "1 \<le> length long_chunks" "\<forall>j < 1. answered (drops_second j)"
    by (simp_all add: long_chunks_facts drops_second_def heard_def)
  from transcribeAudio_progress_notifications
         [OF long_file_needs_chunking long_file_chunks j, of "''en''" True]
  have aborted: "\<exists>result before events.
      transcribeAudio long_file drops_second ''en'' True True =
        Some (result,
              before @
              [Progress (chunkNote 0 3), Upload (WavChunk 0 2400000) (Some ''chunk-1.wav'') ''en'' True,
               Progress (chunkNote 1 3), Upload (WavChunk 2400000 2400000) (Some ''chunk-2.wav'') ''en'' True]
              @ events) \<and>
      uploads before = []"
    by (auto simp: long_chunks_facts chunkUpload_def show_nat_small)
  have b: "answered (drops_second 0)"
    by (simp add: drops_second_def heard_def)
  from complete a aborted b show ?thesis
    using long_file_needs_chunking long_file_chunks long_chunks_facts(1) by blast
qed

text \<open>
  Claim C7 as stated fails: the notification that names chunk \<open>k\<close> of \<open>n\<close> precedes the
  request of that chunk and reports \<open>(k - 1) / n\<close> as a percentage, and the notification
  that follows the last chunk names no chunk.
\<close>

theorem progress_before_each_chunk_counterexample:
  "map_option (map outline \<circ> snd) (transcribeAudio long_file always_answers ''en'' True True) =
     Some [Inl (None, None, None), Inl (None, None, None), Inl (None, Some 3, None),
           Inl (Some 1, Some 3, Some 0), Inr (Some ''chunk-1.wav''),
           Inl (Some 2, Some 3, Some (100 / 3)), Inr (Some ''chunk-2.wav''),
           Inl (Some 3, Some 3, Some (200 / 3)), Inr (Some ''chunk-3.wav''),
           Inl (None, None, Some 100)]"
  by (simp add: transcribeAudio_completes [OF long_file_needs_chunking long_file_chunks always_answers_long]
                long_chunks_facts upt_3 chunkUpload_def show_nat_small emit_def chunkNote_def notice_def)

lemma oversize_needs_chunking:
  assumes "real (file_size file) / (1024 * 1024) > 25"
  shows "needsChunking (checkIfNeedsChunking file 25 300)"
    and "cc_duration (checkIfNeedsChunking file 25 300) = probed_duration file"
  using assms
  by (cases "probed_duration file"; simp add: checkIfNeedsChunking_def Let_def)+

lemma short_file_single_chunk:
  assumes "decoded file = Inr audioBuffer" "buf_duration audioBuffer \<le> chunkDurationSeconds"
  shows "splitAudioIntoChunks file chunkDurationSeconds =
         Some (Inr [\<lparr>blob = OriginalFile, startTime = 0, endTime = buf_duration audioBuffer,
                     index = 0, chunk_duration = None\<rparr>])"
  using assms by (simp add: splitAudioIntoChunks_def Let_def)

text \<open>
  Claim C10. For a file larger than 25 MB whose decoded duration does not exceed the chunk
  duration, the classifier demands chunking, the splitter returns the single chunk whose
  payload is the file itself (index 0, start 0, end the duration), and the orchestrator
  sends exactly one request, carrying the file; when the request succeeds the result is
  the chunked success with \<open>wasChunked = True\<close> and one chunk summary, and when it fails
  the result is the partial failure with no completed chunk.
\<close>

theorem oversized_short_file_uploaded_whole:
  assumes "real (file_size file) / (1024 * 1024) > 25"
      and "decoded file = Inr audioBuffer"
      and "buf_duration audioBuffer \<le> CHUNK_DURATION_SECONDS"
  shows "needsChunking (checkIfNeedsChunking file 25 300) \<and>
         splitAudioIntoChunks file CHUNK_DURATION_SECONDS =
           Some (Inr [\<lparr>blob = OriginalFile, startTime = 0, endTime = buf_duration audioBuffer,
                       index = 0, chunk_duration = None\<rparr>]) \<and>
         (\<exists>result trace.
            transcribeAudio file net language onProgress includeTimestamps = Some (result, trace) \<and>
            uploads trace = [Upload OriginalFile None language includeTimestamps] \<and>
            (answered (net 0) \<longrightarrow>
               result = ChunkedSuccess (answer_text (net 0)) (answer_segments (net 0))
                          [\<lparr>chunkIndex = 0, sum_startTime = 0,
                            sum_endTime = buf_duration audioBuffer, sum_duration = None,
                            sum_text = answer_text (net 0)\<rparr>]
                          language (probed_duration file) True) \<and>
            (\<not> answered (net 0) \<longrightarrow>
               result = PartialFailure
                          (''Failed to transcribe chunk 1: '' @ failure_message (net 0))
                          [] [] 0 1))"
proof -
  let ?chunks = "[\<lparr>blob = OriginalFile, startTime = 0, endTime = buf_duration audioBuffer,
                   index = 0, chunk_duration = None\<rparr>]"
  note needs = oversize_needs_chunking [OF assms(1)]
  note split = short_file_single_chunk [OF assms(2,3)]
  have up: "chunkUpload language includeTimestamps ?chunks 0
            = Upload OriginalFile None language includeTimestamps"
    by (simp add: chunkUpload_def)
  have run: "\<exists>result trace.
            transcribeAudio file net language onProgress includeTimestamps = Some (result, trace) \<and>
            uploads trace = [Upload OriginalFile None language includeTimestamps] \<and>
            (answered (net 0) \<longrightarrow>
               result = ChunkedSuccess (answer_text (net 0)) (answer_segments (net 0))
                          [\<lparr>chunkIndex = 0, sum_startTime = 0,
                            sum_endTime = buf_duration audioBuffer, sum_duration = None,
                            sum_text = answer_text (net 0)\<rparr>]
                          language (probed_duration file) True) \<and>
            (\<not> answered (net 0) \<longrightarrow>
               result = PartialFailure
                          (''Failed to transcribe chunk 1: '' @ failure_message (net 0))
                          [] [] 0 1)"
  proof (cases "answered (net 0)")
    case True
    then have all: "\<forall>j < length ?chunks. answered (net j)"
      by simp
    show ?thesis
      using True
      by (simp add: transcribeAudio_completes [OF needs(1) split all] needs(2) uploads_append
                    uploads_emit up chunkSummary_def appendText_def reconcile_def)
  next
    case False
    have "0 < length ?chunks" "\<forall>j<0. answered (net j)"
      by simp_all
    from transcribeAudio_aborts [OF needs(1) split this False, of language onProgress includeTimestamps]
    show ?thesis
      using False by (auto simp: up show_nat_small)
  qed
  show ?thesis
    using needs(1) split run by blast
qed

theorem oversized_short_file_uploaded_whole_witness:
  "real (file_size oversized_short_file) / (1024 * 1024) > 25 \<and>
   decoded oversized_short_file = Inr short_buffer \<and>
   buf_duration short_buffer \<le> CHUNK_DURATION_SECONDS \<and>
   answered (always_answers 0) \<and>
   splitAudioIntoChunks oversized_short_file CHUNK_DURATION_SECONDS =
     Some (Inr [\<lparr>blob = OriginalFile, startTime = 0, endTime = 180, index = 0,
                 chunk_duration = None\<rparr>]) \<and>
   (\<exists>trace.
      transcribeAudio oversized_short_file always_answers ''en'' False True =
        Some (ChunkedSuccess ''ok'' [\<lparr>seg_id = 0, seg_start = 0, seg_end = 2, seg_text = ''ok''\<rparr>]
                [\<lparr>chunkIndex = 0, sum_startTime = 0, sum_endTime = 180, sum_duration = None,
                  sum_text = ''ok''\<rparr>]
                ''en'' (Some 180) True, trace) \<and>
      uploads trace = [Upload OriginalFile None ''en'' True]) \<and>
   \<not> answered (never_answers 0) \<and>
   (\<exists>trace.
      transcribeAudio oversized_short_file never_answers ''en'' False True =
        Some (PartialFailure ''Failed to transcribe chunk 1: Failed to fetch'' [] [] 0 1, trace) \<and>
      uploads trace = [Upload OriginalFile None ''en'' True])"
proof -
  have h: "real (file_size oversized_short_file) / (1024 * 1024) > 25"
          "decoded oversized_short_file = Inr short_buffer"
          "buf_duration short_buffer \<le> CHUNK_DURATION_SECONDS"
    by (simp_all add: oversized_short_file_def short_buffer_def buf_duration_def
                      CHUNK_DURATION_SECONDS_def)
  have a: "answered (always_answers 0)" "answer_text (always_answers 0) = ''ok''"
    "answer_segments (always_answers 0) = [\<lparr>seg_id = 0, seg_start = 0, seg_end = 2, seg_text = ''ok''\<rparr>]"
    by (simp_all add: always_answers_def heard_def)
  have n: "\<not> answered (never_answers 0)" "failure_message (never_answers 0) = ''Failed to fetch''"
    by (simp_all add: never_answers_def)
  have d: "buf_duration short_buffer = 180" "probed_duration oversized_short_file = Some 180"
    by (simp_all add: short_buffer_def buf_duration_def oversized_short_file_def)
  from oversized_short_file_uploaded_whole [OF h, of always_answers "''en''" False True]
       oversized_short_file_uploaded_whole [OF h, of never_answers "''en''" False True]
  show ?thesis
    using h a n by (auto simp: d)
qed

lemma chunkLoop_aborted_shape:
  "fst (chunkLoop net language cb ts chunks i tr acc segs) = Aborted r \<Longrightarrow>
   \<exists>e p s c t. r = PartialFailure e p s c t"
proof (induction net language cb ts chunks i tr acc segs rule: chunkLoop.induct)
  case (1 net language cb ts chunks i tr acc segs)
  show ?case
  proof (cases "i < length chunks")
    case False
    with "1.prems" show ?thesis
      by (simp add: chunkLoop_done)
  next
    case True
    show ?thesis
    proof (cases "chunkCall net language ts chunks i")
      case (Pair result events)
      show ?thesis
      proof (cases result)
        case (SingleFailure err)
        with "1.prems" True Pair show ?thesis
          by (subst (asm) chunkLoop.simps) auto
      next
        case (SingleSuccess t l d s)
        with "1.prems" True Pair have
          "fst (chunkLoop net language cb ts chunks (i + 1)
                  (tr @ [\<lparr>chunkIndex = i, sum_startTime = startTime (chunks ! i),
                           sum_endTime = endTime (chunks ! i),
                           sum_duration = chunk_duration (chunks ! i), sum_text = t\<rparr>])
                  (appendText acc t) (segs @ s)) = Aborted r"
          by (subst (asm) chunkLoop.simps) (simp add: case_prod_beta)
        with "1.IH" [OF True Pair [symmetric] SingleSuccess] show ?thesis
          by blast
      qed
    qed
  qed
qed

lemma single_result_shape:
  "success (Single r) \<Longrightarrow> keys (Single r) = [''success'', ''text'', ''language'', ''duration'', ''segments'']"
  "\<not> success (Single r) \<Longrightarrow> keys (Single r) = [''success'', ''error'']"
  by (cases r; simp)+

text \<open>
  Claim C6 (as amended). Every successful result has \<open>success\<close>, \<open>text\<close>, \<open>segments\<close>
  and \<open>language\<close> and none of the fields of a failure; every failed result has
  \<open>success\<close> and \<open>error\<close> and none of \<open>text\<close>, \<open>language\<close>, \<open>duration\<close>,
  \<open>wasChunked\<close>, \<open>chunks\<close>. A success of the direct path has exactly the fields
  \<open>success, text, language, duration, segments\<close>; a success of a chunked run has
  \<open>wasChunked = True\<close> and \<open>chunks\<close>.
\<close>

theorem transcribeAudio_result_shapes:
  assumes "transcribeAudio file net language onProgress includeTimestamps = Some (result, trace)"
  shows "(success result \<longrightarrow>
            {''success'', ''text'', ''segments'', ''language''} \<subseteq> set (keys result) \<and>
            set (keys result) \<inter> {''error'', ''partialText'', ''completedChunks'', ''totalChunks''} = {}) \<and>
         (\<not> success result \<longrightarrow>
            {''success'', ''error''} \<subseteq> set (keys result) \<and>
            set (keys result) \<inter> {''text'', ''language'', ''duration'', ''wasChunked'', ''chunks''} = {}) \<and>
         (success result \<and> \<not> needsChunking (checkIfNeedsChunking file 25 300) \<longrightarrow>
            keys result = [''success'', ''text'', ''language'', ''duration'', ''segments'']) \<and>
         (success result \<and> needsChunking (checkIfNeedsChunking file 25 300) \<longrightarrow>
            (\<exists>t s c d. result = ChunkedSuccess t s c language d True) \<and>
            ''wasChunked'' \<in> set (keys result) \<and> ''chunks'' \<in> set (keys result))"
proof (cases "needsChunking (checkIfNeedsChunking file 25 300)")
  case False
  with assms obtain r where "result = Single r"
    by (auto simp: transcribeAudio_def Let_def split: prod.splits)
  with False show ?thesis
    using single_result_shape [of r] by (cases "success (Single r)") auto
next
  case True
  show ?thesis
  proof (cases "splitAudioIntoChunks file CHUNK_DURATION_SECONDS")
    case None
    with assms True show ?thesis
      by (simp add: transcribeAudio_def Let_def)
  next
    case (Some split)
    show ?thesis
    proof (cases split)
      case (Inl msg)
      with assms True Some have "result = Single (SingleFailure msg)"
        by (simp add: transcribeAudio_def Let_def)
      then show ?thesis
        using True by simp
    next
      case (Inr chunks)
      with Some have split: "splitAudioIntoChunks file CHUNK_DURATION_SECONDS = Some (Inr chunks)"
        by simp
      obtain exit events where
        loop: "chunkLoop net language onProgress includeTimestamps chunks 0 [] [] [] = (exit, events)"
        by (cases "chunkLoop net language onProgress includeTimestamps chunks 0 [] [] []")
      show ?thesis
      proof (cases exit)
        case (Aborted partial)
        with assms loop have "result = partial"
          by (simp add: transcribeAudio_chunked [OF True split])
        moreover have "fst (chunkLoop net language onProgress includeTimestamps chunks 0 [] [] [])
                       = Aborted partial"
          using loop Aborted by simp
        then have "\<exists>e p s c t. partial = PartialFailure e p s c t"
          by (rule chunkLoop_aborted_shape)
        ultimately show ?thesis
          using True by auto
      next
        case (Completed transcriptions totalText allSegments)
        with assms loop have "result = ChunkedSuccess totalText allSegments transcriptions language
                                         (cc_duration (checkIfNeedsChunking file 25 300)) True"
          by (simp add: transcribeAudio_chunked [OF True split])
        then show ?thesis
          using True by simp
      qed
    qed
  qed
qed

theorem transcribeAudio_result_shapes_witness:
  "(\<exists>chunks trace.
     transcribeAudio long_file always_answers ''en'' False True =
       Some (ChunkedSuccess ''ok ok ok''
               [\<lparr>seg_id = 0, seg_start = 0, seg_end = 2, seg_text = ''ok''\<rparr>,
                \<lparr>seg_id = 0, seg_start = 300, seg_end = 302, seg_text = ''ok''\<rparr>,
                \<lparr>seg_id = 0, seg_start = 600, seg_end = 602, seg_text = ''ok''\<rparr>]
               chunks ''en'' (Some 700) True, trace) \<and>
     ''wasChunked'' \<in> set (keys (ChunkedSuccess ''ok ok ok''
               [\<lparr>seg_id = 0, seg_start = 0, seg_end = 2, seg_text = ''ok''\<rparr>,
                \<lparr>seg_id = 0, seg_start = 300, seg_end = 302, seg_text = ''ok''\<rparr>,
                \<lparr>seg_id = 0, seg_start = 600, seg_end = 602, seg_text = ''ok''\<rparr>]
               chunks ''en'' (Some 700) True))) \<and>
   \<not> needsChunking (checkIfNeedsChunking small_file 25 300) \<and>
   (\<exists>trace.
     transcribeAudio small_file always_answers ''en'' False True =
       Some (Single (SingleSuccess ''ok'' ''en'' (Some 300)
                       [\<lparr>seg_id = 0, seg_start = 0, seg_end = 2, seg_text = ''ok''\<rparr>]), trace) \<and>
     keys (Single (SingleSuccess ''ok'' ''en'' (Some 300)
                       [\<lparr>seg_id = 0, seg_start = 0, seg_end = 2, seg_text = ''ok''\<rparr>]))
       = [''success'', ''text'', ''language'', ''duration'', ''segments''])"
proof -
  have probed: "cc_duration (checkIfNeedsChunking long_file 25 300) = Some 700"
    by (simp add: checkIfNeedsChunking_def long_file_def Let_def)
  obtain chunks trace where run:
    "transcribeAudio long_file always_answers ''en'' False True =
       Some (ChunkedSuccess ''ok ok ok''
               [\<lparr>seg_id = 0, seg_start = 0, seg_end = 2, seg_text = ''ok''\<rparr>,
                \<lparr>seg_id = 0, seg_start = 300, seg_end = 302, seg_text = ''ok''\<rparr>,
                \<lparr>seg_id = 0, seg_start = 600, seg_end = 602, seg_text = ''ok''\<rparr>]
               chunks ''en'' (Some 700) True, trace)"
    by (simp add: transcribeAudio_completes [OF long_file_needs_chunking long_file_chunks always_answers_long]
                  long_chunks_facts upt_3 always_answers_def heard_def appendText_def
                  reconcile_def probed)
  have direct: "\<not> needsChunking (checkIfNeedsChunking small_file 25 300)"
    by (simp add: checkIfNeedsChunking_def small_file_def Let_def)
  then obtain trace' where run':
    "transcribeAudio small_file always_answers ''en'' False True =
       Some (Single (SingleSuccess ''ok'' ''en'' (Some 300)
                       [\<lparr>seg_id = 0, seg_start = 0, seg_end = 2, seg_text = ''ok''\<rparr>]), trace')"
    by (simp add: transcribeAudio_def Let_def transcribeSingleAudio_def always_answers_def heard_def
                  reconcile_def)
  from transcribeAudio_result_shapes [OF run] transcribeAudio_result_shapes [OF run']
       long_file_needs_chunking direct run run'
  show ?thesis
    by auto
qed

text \<open>
  Claim C6 as stated fails: the success of the direct path has no \<open>wasChunked\<close> field,
  and the success of a chunked run has no \<open>duration\<close> field.
\<close>

theorem success_shapes_differ_counterexample:
  "map_option (keys \<circ> fst) (transcribeAudio small_file always_answers ''en'' False True)
     = Some [''success'', ''text'', ''language'', ''duration'', ''segments''] \<and>
   map_option (keys \<circ> fst) (transcribeAudio long_file always_answers ''en'' False True)
     = Some [''success'', ''text'', ''segments'', ''chunks'', ''language'', ''totalDuration'',
             ''wasChunked'']"
proof -
  have "\<not> needsChunking (checkIfNeedsChunking small_file 25 300)"
    by (simp add: checkIfNeedsChunking_def small_file_def Let_def)
  then have "map_option (keys \<circ> fst) (transcribeAudio small_file always_answers ''en'' False True)
     = Some [''success'', ''text'', ''language'', ''duration'', ''segments'']"
    by (simp add: transcribeAudio_def Let_def transcribeSingleAudio_def always_answers_def heard_def
                  emit_def)
  then show ?thesis
    by (simp add: transcribeAudio_completes [OF long_file_needs_chunking long_file_chunks always_answers_long])
qed

end
